theory Spec2Isabelle
  imports Complex_Main "HOL-Library.Log_Nat"
begin

section \<open>Python values used by the assessment engine\<close>

subsection \<open>Floats: IEEE 754 binary64 with round-to-nearest-even\<close>

text \<open>
  A Python \<open>float\<close> is a binary64 number.  A finite float is represented by the real
  number it denotes; the negative zero, the two infinities and NaN are separate
  constructors.  \<open>Fin 0\<close> is the positive zero.  Every arithmetic operation computes the
  exact real result and rounds it with \<open>dbl\<close>, as the hardware does.
\<close>

datatype pyfloat = Fin real | NZero | PInf | NInf | NaN

datatype pyerror = ZeroDivisionError | OverflowError | ValueError

fun val :: "pyfloat \<Rightarrow> real" where
  "val (Fin x) = x"
| "val _ = 0"

fun isnan :: "pyfloat \<Rightarrow> bool" where
  "isnan NaN = True"
| "isnan _ = False"

fun isinf :: "pyfloat \<Rightarrow> bool" where
  "isinf PInf = True"
| "isinf NInf = True"
| "isinf _ = False"

fun is_zero :: "pyfloat \<Rightarrow> bool" where
  "is_zero (Fin x) = (x = 0)"
| "is_zero NZero = True"
| "is_zero _ = False"

text \<open>\<open>math.isfinite\<close>: neither NaN nor an infinity.\<close>

definition is_finite :: "pyfloat \<Rightarrow> bool" where
  "is_finite a = (\<not> isnan a \<and> \<not> isinf a)"

text \<open>The sign bit: \<open>True\<close> for a negative float, the negative zero included.\<close>

fun sign :: "pyfloat \<Rightarrow> bool" where
  "sign (Fin x) = (x < 0)"
| "sign NZero = True"
| "sign NInf = True"
| "sign _ = False"

text \<open>Round half to even, to an integer (Python's \<open>round\<close> on the exact value).\<close>

definition rhe :: "real \<Rightarrow> int" where
  "rhe x = (let f = \<lfloor>x\<rfloor>; d = x - of_int f in
     if d < 1/2 then f else if 1/2 < d then f + 1 else if even f then f else f + 1)"

text \<open>The binary exponent of a positive real: \<open>2 powi expo x \<le> x < 2 powi (expo x + 1)\<close>.\<close>

definition expo :: "real \<Rightarrow> int" where
  "expo x = (if 1 \<le> x then bitlen \<lfloor>x\<rfloor> - 1 else - bitlen (\<lceil>1 / x\<rceil> - 1))"

text \<open>
  The nearest number with a 53-bit significand and an exponent of at least \<open>-1022\<close>
  (below it the spacing stays \<open>2 powi (-1074)\<close>: the subnormal numbers), ties to the even
  significand.  The exponent is not bounded above here; \<open>dbl\<close> turns a result beyond the
  largest float into an infinity.
\<close>

definition dblr :: "real \<Rightarrow> real" where
  "dblr x = (if x = 0 then 0 else
     let e = max (expo \<bar>x\<bar>) (- 1022); q = 2 powi (e - 52)
     in sgn x * (of_int (rhe (\<bar>x\<bar> / q)) * q))"

definition dbl :: "real \<Rightarrow> pyfloat" where
  "dbl x = (let r = dblr x in
     if 2 ^ 1024 \<le> r then PInf
     else if r \<le> - (2 ^ 1024) then NInf
     else if r = 0 \<and> x < 0 then NZero
     else Fin r)"

text \<open>Comparison: every comparison with NaN is false; the two zeros are equal.\<close>

fun fle :: "pyfloat \<Rightarrow> pyfloat \<Rightarrow> bool" where
  "fle NaN _ = False"
| "fle _ NaN = False"
| "fle NInf _ = True"
| "fle _ PInf = True"
| "fle PInf _ = False"
| "fle _ NInf = False"
| "fle a b = (val a \<le> val b)"

fun flt :: "pyfloat \<Rightarrow> pyfloat \<Rightarrow> bool" where
  "flt NaN _ = False"
| "flt _ NaN = False"
| "flt PInf _ = False"
| "flt _ NInf = False"
| "flt NInf _ = True"
| "flt _ PInf = True"
| "flt a b = (val a < val b)"

text \<open>
  The builtins \<open>max(a, b)\<close> and \<open>min(a, b)\<close> keep the first argument unless the second
  is strictly greater (smaller).
\<close>

definition pymax :: "pyfloat \<Rightarrow> pyfloat \<Rightarrow> pyfloat" where
  "pymax a b = (if flt a b then b else a)"

definition pymin :: "pyfloat \<Rightarrow> pyfloat \<Rightarrow> pyfloat" where
  "pymin a b = (if flt b a then b else a)"

fun fneg :: "pyfloat \<Rightarrow> pyfloat" where
  "fneg (Fin x) = (if x = 0 then NZero else Fin (- x))"
| "fneg NZero = Fin 0"
| "fneg PInf = NInf"
| "fneg NInf = PInf"
| "fneg NaN = NaN"

fun fadd :: "pyfloat \<Rightarrow> pyfloat \<Rightarrow> pyfloat" where
  "fadd NaN _ = NaN"
| "fadd _ NaN = NaN"
| "fadd PInf NInf = NaN"
| "fadd NInf PInf = NaN"
| "fadd PInf _ = PInf"
| "fadd _ PInf = PInf"
| "fadd NInf _ = NInf"
| "fadd _ NInf = NInf"
| "fadd NZero NZero = NZero"
| "fadd a b = (if val a + val b = 0 then Fin 0 else dbl (val a + val b))"

definition fsub :: "pyfloat \<Rightarrow> pyfloat \<Rightarrow> pyfloat" where
  "fsub a b = fadd a (fneg b)"

definition fmul :: "pyfloat \<Rightarrow> pyfloat \<Rightarrow> pyfloat" where
  "fmul a b =
     (if isnan a \<or> isnan b then NaN
      else if isinf a \<or> isinf b then
        (if is_zero a \<or> is_zero b then NaN else if sign a = sign b then PInf else NInf)
      else if val a * val b = 0 then (if sign a = sign b then Fin 0 else NZero)
      else dbl (val a * val b))"

text \<open>Python raises on a zero divisor before anything else is looked at.\<close>

definition fdiv :: "pyfloat \<Rightarrow> pyfloat \<Rightarrow> pyerror + pyfloat" where
  "fdiv a b =
     (if is_zero b then Inl ZeroDivisionError
      else Inr
        (if isnan a \<or> isnan b then NaN
         else if isinf a then
           (if isinf b then NaN else if sign a = sign b then PInf else NInf)
         else if isinf b \<or> is_zero a then (if sign a = sign b then Fin 0 else NZero)
         else dbl (val a / val b)))"

text \<open>
  An \<open>int\<close> operand of a float operation is converted first; the conversion rounds
  and raises when the integer is beyond the float range.
\<close>

definition float_of_int :: "int \<Rightarrow> pyerror + pyfloat" where
  "float_of_int n = (if isinf (dbl (of_int n)) then Inl OverflowError else Inr (dbl (of_int n)))"

text \<open>\<open>int(round(a))\<close>: \<open>round\<close> already returns an \<open>int\<close> and raises on NaN and infinities.\<close>

definition py_round :: "pyfloat \<Rightarrow> pyerror + int" where
  "py_round a =
     (if isnan a then Inl ValueError
      else if isinf a then Inl OverflowError
      else Inr (rhe (val a)))"

definition bind_err :: "'e + 'a \<Rightarrow> ('a \<Rightarrow> 'e + 'b) \<Rightarrow> 'e + 'b" where
  "bind_err m f = (case m of Inl e \<Rightarrow> Inl e | Inr a \<Rightarrow> f a)"

subsection \<open>Strings and number formatting\<close>

text \<open>
  Strings are byte lists holding UTF-8; the characters of the source outside ASCII
  are named here.
\<close>

definition em_dash :: string where
  "em_dash = [CHR 0xE2, CHR 0x80, CHR 0x94]"

definition en_dash :: string where
  "en_dash = [CHR 0xE2, CHR 0x80, CHR 0x93]"

definition degree_sign :: string where
  "degree_sign = [CHR 0xC2, CHR 0xB0]"

definition micro_sign :: string where
  "micro_sign = [CHR 0xC2, CHR 0xB5]"

definition superscript_three :: string where
  "superscript_three = [CHR 0xC2, CHR 0xB3]"

definition ge_sign :: string where
  "ge_sign = [CHR 0xE2, CHR 0x89, CHR 0xA5]"

definition le_sign :: string where
  "le_sign = [CHR 0xE2, CHR 0x89, CHR 0xA4]"

definition white_circle :: string where
  "white_circle = [CHR 0xE2, CHR 0x9A, CHR 0xAA]"

definition green_circle :: string where
  "green_circle = [CHR 0xF0, CHR 0x9F, CHR 0x9F, CHR 0xA2]"

definition yellow_circle :: string where
  "yellow_circle = [CHR 0xF0, CHR 0x9F, CHR 0x9F, CHR 0xA1]"

definition orange_circle :: string where
  "orange_circle = [CHR 0xF0, CHR 0x9F, CHR 0x9F, CHR 0xA0]"

definition red_circle :: string where
  "red_circle = [CHR 0xF0, CHR 0x9F, CHR 0x94, CHR 0xB4]"

definition purple_circle :: string where
  "purple_circle = [CHR 0xF0, CHR 0x9F, CHR 0x9F, CHR 0xA3]"

definition brown_circle :: string where
  "brown_circle = [CHR 0xF0, CHR 0x9F, CHR 0x9F, CHR 0xA4]"

definition digit_char :: "nat \<Rightarrow> char" where
  "digit_char n = ''0123456789'' ! (n mod 10)"

fun nat_digits :: "nat \<Rightarrow> string" where
  "nat_digits n = (if n < 10 then [digit_char n] else nat_digits (n div 10) @ [digit_char n])"

declare nat_digits.simps [simp del]

text \<open>
  The format specification \<open>.df\<close>: the exact value rounded half to even to \<open>d\<close>
  decimals, a minus sign whenever the sign bit is set.
\<close>

definition py_format_f :: "nat \<Rightarrow> pyfloat \<Rightarrow> string" where
  "py_format_f d v =
     (if isnan v then ''nan''
      else if isinf v then (if sign v then ''-inf'' else ''inf'')
      else
        let n = nat (rhe (\<bar>val v\<bar> * 10 ^ d)) in
        (if sign v then ''-'' else [])
        @ nat_digits (n div 10 ^ d)
        @ (if d = 0 then [] else ''.'' @ tl (nat_digits (10 ^ d + n mod 10 ^ d))))"

section \<open>The assessment engine of \<open>purple_air.py\<close>\<close>

subsection \<open>\<open>epa_aqi_pm25\<close>\<close>

type_synonym band = "pyfloat \<times> pyfloat \<times> int \<times> int"

definition bps :: "band list" where
  "bps =
     [(dbl 0.0, dbl 12.0, 0, 50),
      (dbl 12.1, dbl 35.4, 51, 100),
      (dbl 35.5, dbl 55.4, 101, 150),
      (dbl 55.5, dbl 150.4, 151, 200),
      (dbl 150.5, dbl 250.4, 201, 300),
      (dbl 250.5, dbl 350.4, 301, 400),
      (dbl 350.5, dbl 500.4, 401, 500)]"

text \<open>
  The body of the loop for one band:
  \<open>aqi = (i_hi - i_lo) / (c_hi - c_lo) * (x - c_lo) + i_lo\<close>, then \<open>int(round(aqi))\<close>.
\<close>

definition interpolate :: "band \<Rightarrow> pyfloat \<Rightarrow> pyerror + int" where
  "interpolate b x =
     (case b of (c_lo, c_hi, i_lo, i_hi) \<Rightarrow>
        bind_err (float_of_int (i_hi - i_lo)) (\<lambda>di.
        bind_err (fdiv di (fsub c_hi c_lo)) (\<lambda>slope.
        bind_err (float_of_int i_lo) (\<lambda>base.
        py_round (fadd (fmul slope (fsub x c_lo)) base)))))"

text \<open>
  The value of that expression for a finite \<open>x\<close> of value \<open>v\<close>, a slope \<open>s\<close>, a lower
  breakpoint \<open>lo\<close> and a lower index \<open>i\<close>, when no operation overflows (lemma
  \<open>interpolate_Fin\<close> below): three rounded operations, then the rounding to an integer.
\<close>

definition interp :: "real \<Rightarrow> real \<Rightarrow> int \<Rightarrow> real \<Rightarrow> int" where
  "interp s lo i v = rhe (dblr (dblr (s * dblr (v - lo)) + of_int i))"

text \<open>
  The exact values of the breakpoint literals that are not binary fractions, and of the
  seven slopes \<open>(i_hi - i_lo) / (c_hi - c_lo)\<close> (lemmas \<open>dbl_consts\<close> and \<open>slopes\<close> below).
\<close>

abbreviation (input) c_12_1 :: real where "c_12_1 \<equiv> 6811694436397875 / 562949953421312"
abbreviation (input) c_35_4 :: real where "c_35_4 \<equiv> 4982107087778611 / 140737488355328"
abbreviation (input) c_55_4 :: real where "c_55_4 \<equiv> 7796856854885171 / 140737488355328"
abbreviation (input) c_150_4 :: real where "c_150_4 \<equiv> 5291729562160333 / 35184372088832"
abbreviation (input) c_250_4 :: real where "c_250_4 \<equiv> 8810166771043533 / 35184372088832"
abbreviation (input) c_350_4 :: real where "c_350_4 \<equiv> 3082150994981683 / 8796093022208"
abbreviation (input) c_500_4 :: real where "c_500_4 \<equiv> 4401564948312883 / 8796093022208"

abbreviation (input) slope0 :: real where "slope0 \<equiv> 4691249611844267 / 1125899906842624"
abbreviation (input) slope1 :: real where "slope1 \<equiv> 147985771017405 / 70368744177664"
abbreviation (input) slope2 :: real where "slope2 \<equiv> 5544632707064179 / 2251799813685248"
abbreviation (input) slope3 :: real where "slope3 \<equiv> 4650714051446877 / 9007199254740992"
abbreviation (input) slope4 :: real where "slope4 \<equiv> 8926053315509091 / 9007199254740992"
abbreviation (input) slope5 :: real where "slope5 \<equiv> 8926053315509093 / 9007199254740992"
abbreviation (input) slope6 :: real where "slope6 \<equiv> 2974358659837753 / 4503599627370496"

text \<open>The \<open>for\<close> loop over the bands; falling out of it returns \<open>None\<close>.\<close>

fun band_loop :: "band list \<Rightarrow> pyfloat \<Rightarrow> pyerror + int option" where
  "band_loop [] x = Inr None"
| "band_loop ((c_lo, c_hi, i_lo, i_hi) # rest) x =
     (if fle c_lo x \<and> fle x c_hi
      then bind_err (interpolate (c_lo, c_hi, i_lo, i_hi) x) (\<lambda>aqi. Inr (Some aqi))
      else band_loop rest x)"

definition epa_aqi_pm25 :: "pyfloat option \<Rightarrow> pyerror + int option" where
  "epa_aqi_pm25 pm25 =
     (case pm25 of
        None \<Rightarrow> Inr None
      | Some p \<Rightarrow>
          if isnan p then Inr None
          else band_loop bps (pymin (pymax p (dbl 0.0)) (dbl 500.4)))"

subsection \<open>\<open>assess_aqi\<close>\<close>

definition assess_aqi :: "int option \<Rightarrow> string \<times> string \<times> string \<times> string" where
  "assess_aqi aqi =
     (case aqi of
        None \<Rightarrow> (''Unknown'', white_circle, ''No AQI available.'', '''')
      | Some a \<Rightarrow>
          if 0 \<le> a \<and> a \<le> 50 then
            (''Good'', green_circle,
             ''Air quality is satisfactory. Outdoor activities are safe.'', ''good'')
          else if 51 \<le> a \<and> a \<le> 100 then
            (''Moderate'', yellow_circle,
             ''Acceptable; unusually sensitive people should reduce prolonged exertion.'',
             ''moderate'')
          else if 101 \<le> a \<and> a \<le> 150 then
            (''Unhealthy for Sensitive Groups'', orange_circle,
             ''Sensitive groups should reduce prolonged or heavy exertion.'', ''usg'')
          else if 151 \<le> a \<and> a \<le> 200 then
            (''Unhealthy'', red_circle,
             ''Everyone may experience health effects; limit prolonged outdoor exertion.'',
             ''unhealthy'')
          else if 201 \<le> a \<and> a \<le> 300 then
            (''Very Unhealthy'', purple_circle,
             ''Health alert: avoid prolonged or heavy exertion outdoors.'', ''veryunhealthy'')
          else
            (''Hazardous'', brown_circle,
             ''Health warnings of emergency conditions: avoid all outdoor exertion.'',
             ''hazardous''))"

subsection \<open>\<open>assess_pm25\<close>\<close>

definition assess_pm25 :: "pyfloat option \<Rightarrow> string \<times> string \<times> string" where
  "assess_pm25 pm =
     (case pm of
        None \<Rightarrow> (em_dash, ''No PM2.5 data.'', '''')
      | Some x \<Rightarrow>
          if isnan x then (em_dash, ''No PM2.5 data.'', '''')
          else if fle (Fin 0) x \<and> fle x (dbl 12.0) then
            (''Good'',
             ''Within EPA 24h guideline (0'' @ en_dash @ ''12 '' @ micro_sign @ ''g/m''
               @ superscript_three @ '').'',
             ''good'')
          else if fle (dbl 12.1) x \<and> fle x (dbl 35.4) then
            (''Moderate'', ''Consider caution for unusually sensitive people.'', ''moderate'')
          else if fle (dbl 35.5) x \<and> fle x (dbl 55.4) then
            (''USG'', ''Sensitive groups should reduce prolonged outdoor exertion.'', ''usg'')
          else if fle (dbl 55.5) x \<and> fle x (dbl 150.4) then
            (''Unhealthy'',
             ''Everyone may experience health effects'' @ em_dash @ ''limit outdoor exertion.'',
             ''unhealthy'')
          else if fle (dbl 150.5) x \<and> fle x (dbl 250.4) then
            (''Very Unhealthy'',
             ''Avoid outdoor activities; use masks/air purifiers if possible.'',
             ''veryunhealthy'')
          else
            (''Hazardous'',
             ''Serious risk'' @ em_dash @ ''stay indoors with clean air if available.'',
             ''hazardous''))"

subsection \<open>\<open>assess_temp\<close>\<close>

text \<open>
  The integer literals of the source (\<open>40\<close>, \<open>9\<close>, \<open>32\<close>, ...) are compared and
  converted exactly, so they appear as \<open>Fin\<close> of their value.
\<close>

definition assess_temp :: "pyfloat option \<Rightarrow> string \<Rightarrow> pyerror + string \<times> string" where
  "assess_temp value to_unit =
     (case value of
        None \<Rightarrow> Inr (em_dash, ''No temperature data.'')
      | Some value \<Rightarrow>
          if isnan value then Inr (em_dash, ''No temperature data.'')
          else if to_unit = ''Fahrenheit'' then
            bind_err
              (if fle (Fin 40) value \<and> fle value (Fin 120) then Inr value
               else bind_err (fdiv (fmul value (Fin 9)) (Fin 5)) (\<lambda>q. Inr (fadd q (Fin 32))))
              (\<lambda>v.
                 if fle (Fin 68) v \<and> fle v (Fin 77) then
                   Inr (py_format_f 1 v @ '' '' @ degree_sign @ ''F'',
                        ''Comfort range for many indoors conditions.'')
                 else if flt (Fin 86) v then
                   Inr (py_format_f 1 v @ '' '' @ degree_sign @ ''F'',
                        ''High heat: watch for heat stress; hydrate and rest.'')
                 else if flt v (Fin 50) then
                   Inr (py_format_f 1 v @ '' '' @ degree_sign @ ''F'',
                        ''Cool: consider layering for warmth.'')
                 else Inr (py_format_f 1 v @ '' '' @ degree_sign @ ''F'', em_dash))
          else
            bind_err
              (if fle (Fin (- 20)) value \<and> fle value (Fin 50) then Inr value
               else fdiv (fmul (fsub value (Fin 32)) (Fin 5)) (Fin 9))
              (\<lambda>v.
                 if fle (Fin 20) v \<and> fle v (Fin 25) then
                   Inr (py_format_f 1 v @ '' '' @ degree_sign @ ''C'',
                        ''Comfort range for many indoors conditions.'')
                 else if flt (Fin 30) v then
                   Inr (py_format_f 1 v @ '' '' @ degree_sign @ ''C'',
                        ''High heat: watch for heat stress; hydrate and rest.'')
                 else if flt v (Fin 10) then
                   Inr (py_format_f 1 v @ '' '' @ degree_sign @ ''C'',
                        ''Cool: consider layering for warmth.'')
                 else Inr (py_format_f 1 v @ '' '' @ degree_sign @ ''C'', em_dash)))"

subsection \<open>\<open>assess_humidity\<close>\<close>

definition assess_humidity :: "pyfloat option \<Rightarrow> string \<times> string" where
  "assess_humidity h =
     (case h of
        None \<Rightarrow> (em_dash, ''No humidity data.'')
      | Some h \<Rightarrow>
          if isnan h then (em_dash, ''No humidity data.'')
          else if fle (Fin 40) h \<and> fle h (Fin 60) then
            (py_format_f 0 h @ ''%'', ''Comfort range (40'' @ en_dash @ ''60%).'')
          else if fle (Fin 30) h \<and> flt h (Fin 40) then
            (py_format_f 0 h @ ''%'',
             ''Slightly dry: consider humidifier (target '' @ ge_sign @ ''40%).'')
          else if flt (Fin 60) h \<and> fle h (Fin 70) then
            (py_format_f 0 h @ ''%'',
             ''Slightly humid: increase ventilation; target '' @ le_sign @ ''60%.'')
          else if flt h (Fin 30) then
            (py_format_f 0 h @ ''%'', ''Low humidity: dryness and irritation possible.'')
          else if flt (Fin 70) h then
            (py_format_f 0 h @ ''%'', ''High humidity: mold and discomfort possible.'')
          else (py_format_f 0 h @ ''%'', em_dash))"

subsection \<open>\<open>assess_pressure\<close>\<close>

definition assess_pressure :: "pyfloat option \<Rightarrow> string \<times> string" where
  "assess_pressure p =
     (case p of
        None \<Rightarrow> (em_dash, ''No pressure data.'')
      | Some p \<Rightarrow>
          if isnan p then (em_dash, ''No pressure data.'')
          else if flt p (Fin 1000) then
            (py_format_f 1 p @ '' hPa'', ''Low pressure: unsettled weather likely.'')
          else if flt (Fin 1025) p then
            (py_format_f 1 p @ '' hPa'', ''High pressure: settled/fair weather.'')
          else (py_format_f 1 p @ '' hPa'', ''Near average (~1013 hPa).''))"

section \<open>Properties of the float operations\<close>

subsection \<open>Rounding to an integer\<close>

lemma rhe_floor_le: "\<lfloor>x\<rfloor> \<le> rhe x"
  by (simp add: rhe_def Let_def)

lemma rhe_le_floor: "rhe x \<le> \<lfloor>x\<rfloor> + 1"
  by (simp add: rhe_def Let_def)

lemma rhe_of_int [simp]: "rhe (of_int n) = n"
  by (simp add: rhe_def Let_def)

lemma rhe_mono: "x \<le> y \<Longrightarrow> rhe x \<le> rhe y"
proof -
  assume xy: "x \<le> y"
  have fl: "\<lfloor>x\<rfloor> \<le> \<lfloor>y\<rfloor>" using xy by (rule floor_mono)
  show ?thesis
  proof (cases "\<lfloor>x\<rfloor> = \<lfloor>y\<rfloor>")
    case True
    then show ?thesis using xy by (auto simp add: rhe_def Let_def)
  next
    case False
    with fl have "\<lfloor>x\<rfloor> + 1 \<le> \<lfloor>y\<rfloor>" by simp
    with rhe_le_floor [of x] rhe_floor_le [of y] show ?thesis by linarith
  qed
qed

lemma rhe_ge: "of_int n \<le> x \<Longrightarrow> n \<le> rhe x"
  using rhe_mono [of "of_int n" x] by simp

lemma rhe_le: "x \<le> of_int n \<Longrightarrow> rhe x \<le> n"
  using rhe_mono [of x "of_int n"] by simp

subsection \<open>The binary exponent\<close>

lemma powi_neg: "0 \<le> k \<Longrightarrow> (2::real) powi (- k) = 1 / 2 ^ nat k"
  by (cases "k = 0") (simp_all add: power_int_def field_simps)

lemma powi_nonneg: "0 \<le> k \<Longrightarrow> (2::real) powi k = 2 ^ nat k"
  by (simp add: power_int_def)

lemma expo_lower: "0 < x \<Longrightarrow> 2 powi (expo x) \<le> x"
proof (cases "1 \<le> x")
  case True
  then have n: "0 < \<lfloor>x\<rfloor>" by simp
  from bitlen_bounds [OF n] have "(2::int) ^ nat (bitlen \<lfloor>x\<rfloor> - 1) \<le> \<lfloor>x\<rfloor>" by simp
  then have "real_of_int (2 ^ nat (bitlen \<lfloor>x\<rfloor> - 1)) \<le> x" 
    by (meson le_floor_iff)
  moreover have "1 \<le> bitlen \<lfloor>x\<rfloor>" using n by (simp add: bitlen_alt_def)
  ultimately show ?thesis using True by (simp add: expo_def power_int_def)
next
  case False
  assume x: "0 < x"
  with False have x1: "x < 1" by simp
  define m where "m = \<lceil>1 / x\<rceil> - 1"
  have "1 < 1 / x" using x x1 by simp
  then have m: "0 < m" unfolding m_def by linarith
  from bitlen_bounds [OF m] have "m < 2 ^ nat (bitlen m)" by simp
  then have "\<lceil>1 / x\<rceil> \<le> 2 ^ nat (bitlen m)" unfolding m_def by simp
  then have "1 / x \<le> real_of_int (2 ^ nat (bitlen m))" by (simp only: ceiling_le_iff)
  then have "1 / x \<le> 2 ^ nat (bitlen m)" by simp
  then have "1 / 2 ^ nat (bitlen m) \<le> x" using x
    by (simp add: field_simps)
  moreover have "expo x = - bitlen m" using False by (simp add: expo_def m_def)
  ultimately show ?thesis using powi_neg [OF bitlen_nonneg, of m] by simp
qed

lemma expo_upper: "0 < x \<Longrightarrow> x < 2 powi (expo x + 1)"
proof (cases "1 \<le> x")
  case True
  then have n: "0 < \<lfloor>x\<rfloor>" by simp
  from bitlen_bounds [OF n] have "\<lfloor>x\<rfloor> < 2 ^ nat (bitlen \<lfloor>x\<rfloor>)" by simp
  then have "x < real_of_int (2 ^ nat (bitlen \<lfloor>x\<rfloor>))"
    by (simp only: floor_less_iff)
  moreover have "0 \<le> bitlen \<lfloor>x\<rfloor>" by (rule bitlen_nonneg)
  ultimately show ?thesis using True by (simp add: expo_def power_int_def)
next
  case False
  assume x: "0 < x"
  with False have x1: "x < 1" by simp
  define m where "m = \<lceil>1 / x\<rceil> - 1"
  have "1 < 1 / x" using x x1 by simp
  then have m: "0 < m" unfolding m_def by linarith
  have k: "1 \<le> bitlen m" using m by (simp add: bitlen_alt_def)
  from bitlen_bounds [OF m] have "2 ^ nat (bitlen m - 1) \<le> m" by simp
  then have "2 ^ nat (bitlen m - 1) < \<lceil>1 / x\<rceil>" unfolding m_def by simp
  then have "real_of_int (2 ^ nat (bitlen m - 1)) < 1 / x" by (simp only: less_ceiling_iff)
  then have "2 ^ nat (bitlen m - 1) < 1 / x" by simp
  then have "x < 1 / 2 ^ nat (bitlen m - 1)" using x
    by (simp add: field_simps)
  moreover have "expo x + 1 = - (bitlen m - 1)" using False by (simp add: expo_def m_def)
  ultimately show ?thesis using k powi_neg [of "bitlen m - 1"] by simp
qed


lemma expo_mono: "0 < x \<Longrightarrow> x \<le> y \<Longrightarrow> expo x \<le> expo y"
proof (rule ccontr)
  assume x: "0 < x" and xy: "x \<le> y" and "\<not> expo x \<le> expo y"
  then have "expo y + 1 \<le> expo x" by simp
  then have "(2::real) powi (expo y + 1) \<le> 2 powi (expo x)"
    by (rule power_int_increasing) simp
  moreover have "y < 2 powi (expo y + 1)" using x xy by (intro expo_upper) simp
  moreover have "2 powi (expo x) \<le> x" using x by (rule expo_lower)
  ultimately show False using xy by linarith
qed

lemma expo_ge_iff: "0 < x \<Longrightarrow> (k \<le> expo x) = (2 powi k \<le> x)"
proof
  assume x: "0 < x" and "k \<le> expo x"
  then have "(2::real) powi k \<le> 2 powi (expo x)" by (intro power_int_increasing) simp_all
  with expo_lower [OF x] show "2 powi k \<le> x" by linarith
next
  assume x: "0 < x" and k: "2 powi k \<le> x"
  show "k \<le> expo x"
  proof (rule ccontr)
    assume "\<not> k \<le> expo x"
    then have "expo x + 1 \<le> k" by simp
    then have "(2::real) powi (expo x + 1) \<le> 2 powi k" by (rule power_int_increasing) simp
    with expo_upper [OF x] k show False by linarith
  qed
qed

subsection \<open>Rounding to a float is monotone\<close>

lemma dblr_pos:
  "0 < x \<Longrightarrow>
     dblr x = of_int (rhe (x / 2 powi (max (expo x) (- 1022) - 52)))
                * 2 powi (max (expo x) (- 1022) - 52)"
  by (simp add: dblr_def Let_def)

lemma dblr_zero [simp]: "dblr 0 = 0"
  by (simp add: dblr_def)

lemma dblr_minus: "dblr (- x) = - dblr x"
  by (simp add: dblr_def Let_def sgn_minus)

lemma dblr_nonneg: "0 \<le> x \<Longrightarrow> 0 \<le> dblr x"
proof (cases "x = 0")
  case False
  assume "0 \<le> x"
  with False have x: "0 < x" by simp
  have "0 \<le> x / 2 powi (max (expo x) (- 1022) - 52)" using x by simp
  then have "0 \<le> rhe (x / 2 powi (max (expo x) (- 1022) - 52))"
    using rhe_ge [of 0] by simp
  then show ?thesis unfolding dblr_pos [OF x] by simp
qed simp

lemma powi_split: "(2::real) powi (e + 1) = 2 powi (e - 52) * 2 ^ 53"
  using power_int_add [of "2::real" "e - 52" 53] by (simp add: add.commute)

lemma powi_split': "(2::real) powi e = 2 powi (e - 52) * 2 ^ 52"
  using power_int_add [of "2::real" "e - 52" 52] by simp

lemma dblr_upper:
  assumes x: "0 < x" and e: "expo x \<le> e" and e': "- 1022 \<le> e"
  shows "dblr x \<le> 2 powi (e + 1)"
proof -
  define ex where "ex = max (expo x) (- 1022)"
  define q :: real where "q = 2 powi (ex - 52)"
  have q: "0 < q" by (simp add: q_def)
  have "x < 2 powi (expo x + 1)" using x by (rule expo_upper)
  also have "\<dots> \<le> 2 powi (ex + 1)" by (rule power_int_increasing) (simp_all add: ex_def)
  also have "\<dots> = q * 2 ^ 53" unfolding q_def by (rule powi_split)
  finally have "x / q \<le> real_of_int (2 ^ 53)" using q by (simp add: field_simps)
  then have "rhe (x / q) \<le> 2 ^ 53" by (rule rhe_le)
  then have "real_of_int (rhe (x / q)) \<le> real_of_int (2 ^ 53)" by (simp only: of_int_le_iff)
  then have "real_of_int (rhe (x / q)) \<le> 2 ^ 53" by simp
  then have "real_of_int (rhe (x / q)) * q \<le> 2 ^ 53 * q" using q by simp
  also have "\<dots> = 2 powi (ex + 1)" unfolding q_def using powi_split [of ex] by simp
  also have "\<dots> \<le> 2 powi (e + 1)" using e e' by (intro power_int_increasing) (simp_all add: ex_def)
  finally show ?thesis unfolding dblr_pos [OF x] ex_def q_def .
qed

lemma dblr_lower:
  assumes y: "0 < y" and e: "- 1022 \<le> expo y"
  shows "2 powi (expo y) \<le> dblr y"
proof -
  define q :: real where "q = 2 powi (expo y - 52)"
  have q: "0 < q" by (simp add: q_def)
  have m: "max (expo y) (- 1022) = expo y" using e by simp
  have "q * 2 ^ 52 = 2 powi (expo y)" unfolding q_def using powi_split' [of "expo y"] by simp
  also have "\<dots> \<le> y" using y by (rule expo_lower)
  finally have "real_of_int (2 ^ 52) \<le> y / q" using q by (simp add: field_simps)
  then have "2 ^ 52 \<le> rhe (y / q)" by (rule rhe_ge)
  then have "real_of_int (2 ^ 52) \<le> real_of_int (rhe (y / q))" by (simp only: of_int_le_iff)
  then have "2 ^ 52 \<le> real_of_int (rhe (y / q))" by simp
  then have "2 ^ 52 * q \<le> real_of_int (rhe (y / q)) * q" using q by simp
  moreover have "2 ^ 52 * q = 2 powi (expo y)"
    unfolding q_def using powi_split' [of "expo y"] by simp
  ultimately have "2 powi (expo y) \<le> real_of_int (rhe (y / q)) * q" by linarith
  then show ?thesis unfolding dblr_pos [OF y] m q_def .
qed

lemma dblr_mono_pos:
  assumes x: "0 < x" and xy: "x \<le> y"
  shows "dblr x \<le> dblr y"
proof -
  have y: "0 < y" using x xy by simp
  define ex where "ex = max (expo x) (- 1022)"
  define ey where "ey = max (expo y) (- 1022)"
  have le: "ex \<le> ey" using expo_mono [OF x xy] by (simp add: ex_def ey_def)
  show ?thesis
  proof (cases "ex = ey")
    case True
    define q :: real where "q = 2 powi (ex - 52)"
    have q: "0 < q" by (simp add: q_def)
    have "x / q \<le> y / q" using xy q by (simp add: divide_right_mono)
    then have "rhe (x / q) \<le> rhe (y / q)" by (rule rhe_mono)
    then have "real_of_int (rhe (x / q)) * q \<le> real_of_int (rhe (y / q)) * q"
      using q by simp
    then show ?thesis
      unfolding dblr_pos [OF x] dblr_pos [OF y] using True by (simp add: ex_def ey_def q_def)
  next
    case False
    with le have lt: "ex < ey" by simp
    then have ey: "ey = expo y" "- 1022 \<le> expo y"
      by (auto simp add: ex_def ey_def max_def split: if_splits)
    have "dblr x \<le> 2 powi (ex + 1)"
      using x by (rule dblr_upper) (simp_all add: ex_def)
    also have "\<dots> \<le> 2 powi (expo y)" using lt ey by (intro power_int_increasing) simp_all
    also have "\<dots> \<le> dblr y" using y ey(2) by (rule dblr_lower)
    finally show ?thesis .
  qed
qed

lemma dblr_mono: "x \<le> y \<Longrightarrow> dblr x \<le> dblr y"
proof -
  assume xy: "x \<le> y"
  consider "0 < x" | "x = 0" | "x < 0" "0 \<le> y" | "x < 0" "y < 0" by linarith
  then show ?thesis
  proof cases
    case 1
    then show ?thesis using xy by (rule dblr_mono_pos)
  next
    case 2
    then show ?thesis using xy dblr_nonneg [of y] by simp
  next
    case 3
    then have "0 \<le> dblr (- x)" "0 \<le> dblr y" by (simp_all add: dblr_nonneg)
    then show ?thesis by (simp add: dblr_minus)
  next
    case 4
    then have "dblr (- y) \<le> dblr (- x)" using xy by (intro dblr_mono_pos) simp_all
    then show ?thesis by (simp add: dblr_minus)
  qed
qed

text \<open>
  The overflow test by the exponent of the rounded value: the same function, cheaper to
  evaluate on a concrete input.
\<close>

lemma dbl_code [code]:
  "dbl x = (let r = dblr x in
     if r = 0 then (if x < 0 then NZero else Fin 0)
     else if 1024 \<le> expo \<bar>r\<bar> then (if 0 < r then PInf else NInf)
     else Fin r)"
proof (cases "dblr x = 0")
  case True
  then show ?thesis by (simp add: dbl_def Let_def)
next
  case False
  then have "(1024 \<le> expo \<bar>dblr x\<bar>) = (2 ^ 1024 \<le> \<bar>dblr x\<bar>)"
    using expo_ge_iff [of "\<bar>dblr x\<bar>" 1024] by simp
  then show ?thesis using False by (auto simp add: dbl_def Let_def)
qed

subsection \<open>Operations on finite floats that do not overflow\<close>

lemma dbl_fin:
  "\<bar>dblr t\<bar> < 2 ^ 1024 \<Longrightarrow> is_finite (dbl t) \<and> val (dbl t) = dblr t"
  by (auto simp add: dbl_def Let_def is_finite_def)

lemma is_finite_cases:
  "is_finite a \<Longrightarrow> (\<exists>r. a = Fin r) \<or> a = NZero"
  by (cases a) (simp_all add: is_finite_def)

lemma fneg_fin: "is_finite a \<Longrightarrow> is_finite (fneg a) \<and> val (fneg a) = - val a"
  by (cases a) (simp_all add: is_finite_def)

lemma fadd_fin:
  assumes "is_finite a" "is_finite b" "\<bar>dblr (val a + val b)\<bar> < 2 ^ 1024"
  shows "is_finite (fadd a b) \<and> val (fadd a b) = dblr (val a + val b)"
  using assms dbl_fin [of "val a + val b"]
  by (cases a; cases b) (auto simp add: is_finite_def)

lemma fsub_fin:
  assumes "is_finite a" "is_finite b" "\<bar>dblr (val a - val b)\<bar> < 2 ^ 1024"
  shows "is_finite (fsub a b) \<and> val (fsub a b) = dblr (val a - val b)"
  unfolding fsub_def using assms fneg_fin [of b] fadd_fin [of a "fneg b"] by simp

lemma fmul_fin:
  assumes "is_finite a" "is_finite b" "\<bar>dblr (val a * val b)\<bar> < 2 ^ 1024"
  shows "is_finite (fmul a b) \<and> val (fmul a b) = dblr (val a * val b)"
  using assms dbl_fin [of "val a * val b"]
  by (auto simp add: is_finite_def fmul_def)

lemma py_round_fin: "is_finite a \<Longrightarrow> py_round a = Inr (rhe (val a))"
  by (simp add: py_round_def is_finite_def)

lemma dblr_bounded:
  assumes "0 \<le> t" "t \<le> 2 ^ 20"
  shows "0 \<le> dblr t \<and> dblr t \<le> 2 ^ 20"
proof -
  have "dblr (2 ^ 20) = 2 ^ 20" by code_simp
  with dblr_mono [OF assms(2)] dblr_nonneg [OF assms(1)] show ?thesis by simp
qed

lemma dblr_bounded13:
  assumes "0 \<le> t" "t \<le> 8192"
  shows "0 \<le> dblr t \<and> dblr t \<le> 8192"
proof -
  have "dblr 8192 = 8192" by code_simp
  with dblr_mono [OF assms(2)] dblr_nonneg [OF assms(1)] show ?thesis by simp
qed

lemma interp_mono:
  assumes "0 \<le> s" "v \<le> w"
  shows "interp s lo i v \<le> interp s lo i w"
proof -
  have "dblr (v - lo) \<le> dblr (w - lo)" using assms(2) by (intro dblr_mono) simp
  then have "s * dblr (v - lo) \<le> s * dblr (w - lo)" using assms(1) by (rule mult_left_mono)
  then have "dblr (s * dblr (v - lo)) \<le> dblr (s * dblr (w - lo))" by (rule dblr_mono)
  then have "dblr (dblr (s * dblr (v - lo)) + of_int i) \<le> dblr (dblr (s * dblr (w - lo)) + of_int i)"
    by (intro dblr_mono) simp
  then show ?thesis unfolding interp_def by (rule rhe_mono)
qed

lemma arith_fin:
  assumes s: "0 \<le> s" "s \<le> 16" and v: "lo \<le> v" "v - lo \<le> 512" and i: "0 \<le> i" "i \<le> 512"
  shows "py_round (fadd (fmul (Fin s) (fsub (Fin v) (Fin lo))) (Fin (of_int i))) = Inr (interp s lo i v)"
proof -
  have big: "(2::real) ^ 20 < 2 ^ 1024" by simp
  have d: "0 \<le> dblr (v - lo) \<and> dblr (v - lo) \<le> 512"
  proof -
    have "dblr 512 = 512" by code_simp
    with dblr_mono [OF v(2)] dblr_nonneg [of "v - lo"] v(1) show ?thesis by simp
  qed
  have f1: "is_finite (fsub (Fin v) (Fin lo)) \<and> val (fsub (Fin v) (Fin lo)) = dblr (v - lo)"
    using fsub_fin [of "Fin v" "Fin lo"] d by (simp add: is_finite_def)
  have "s * dblr (v - lo) \<le> 16 * 512" using s d by (intro mult_mono) simp_all
  then have p: "0 \<le> dblr (s * dblr (v - lo)) \<and> dblr (s * dblr (v - lo)) \<le> 8192"
    using s d by (intro dblr_bounded13) simp_all
  have f2: "is_finite (fmul (Fin s) (fsub (Fin v) (Fin lo))) \<and>
      val (fmul (Fin s) (fsub (Fin v) (Fin lo))) = dblr (s * dblr (v - lo))"
    using fmul_fin [of "Fin s" "fsub (Fin v) (Fin lo)"] f1 p by (simp add: is_finite_def)
  have "real_of_int i \<le> 512" using i by simp
  then have t: "0 \<le> dblr (dblr (s * dblr (v - lo)) + of_int i) \<and>
      dblr (dblr (s * dblr (v - lo)) + of_int i) \<le> 2 ^ 20"
    using p i by (intro dblr_bounded) simp_all
  have f3: "is_finite (fadd (fmul (Fin s) (fsub (Fin v) (Fin lo))) (Fin (of_int i))) \<and>
      val (fadd (fmul (Fin s) (fsub (Fin v) (Fin lo))) (Fin (of_int i)))
        = dblr (dblr (s * dblr (v - lo)) + of_int i)"
    using fadd_fin [of "fmul (Fin s) (fsub (Fin v) (Fin lo))" "Fin (of_int i)"] f2 t
    by (simp add: is_finite_def)
  then show ?thesis using py_round_fin by (simp add: interp_def)
qed

lemma interpolate_Fin:
  assumes "float_of_int (i_hi - i_lo) = Inr di"
    and "fdiv di (fsub (Fin hi) (Fin lo)) = Inr (Fin s)"
    and "float_of_int i_lo = Inr (Fin (of_int i_lo))"
    and "0 \<le> s" "s \<le> 16" "lo \<le> v" "v - lo \<le> 512" "0 \<le> i_lo" "i_lo \<le> 512"
  shows "interpolate (Fin lo, Fin hi, i_lo, i_hi) (Fin v) = Inr (interp s lo i_lo v)"
  using assms arith_fin [of s lo v i_lo]
  by (simp add: interpolate_def bind_err_def)

section \<open>The literals of the source as floats\<close>

lemma dbl_consts:
  "dbl 0.0 = Fin 0"
  "dbl 12.0 = Fin 12"
  "dbl 12.1 = Fin c_12_1"
  "dbl 35.4 = Fin c_35_4"
  "dbl 35.5 = Fin (71 / 2)"
  "dbl 55.4 = Fin c_55_4"
  "dbl 55.5 = Fin (111 / 2)"
  "dbl 150.4 = Fin c_150_4"
  "dbl 150.5 = Fin (301 / 2)"
  "dbl 250.4 = Fin c_250_4"
  "dbl 250.5 = Fin (501 / 2)"
  "dbl 350.4 = Fin c_350_4"
  "dbl 350.5 = Fin (701 / 2)"
  "dbl 500.4 = Fin c_500_4"
  by code_simp+

lemma dbl_12_05: "dbl 12.05 = Fin (3391773469363405 / 281474976710656)"
  by code_simp

lemma dbl_0 [simp]: "dbl 0 = Fin 0"
  by (simp add: dbl_def)

lemma dbl_more:
  "dbl 40.0 = Fin 40" "dbl 600 = Fin 600" "dbl (- 5) = Fin (- 5)" "dbl 72 = Fin 72"
  "dbl 22 = Fin 22"
  by code_simp+

text \<open>The same facts with the arguments as the simplifier writes them.\<close>

lemma dbl_norm:
  "dbl 12 = Fin 12"
  "dbl (121 / 10) = Fin c_12_1"
  "dbl (177 / 5) = Fin c_35_4"
  "dbl (71 / 2) = Fin (71 / 2)"
  "dbl (277 / 5) = Fin c_55_4"
  "dbl (111 / 2) = Fin (111 / 2)"
  "dbl (752 / 5) = Fin c_150_4"
  "dbl (301 / 2) = Fin (301 / 2)"
  "dbl (1252 / 5) = Fin c_250_4"
  "dbl (501 / 2) = Fin (501 / 2)"
  "dbl (1752 / 5) = Fin c_350_4"
  "dbl (701 / 2) = Fin (701 / 2)"
  "dbl (2502 / 5) = Fin c_500_4"
  "dbl (241 / 20) = Fin (3391773469363405 / 281474976710656)"
  "dbl 40 = Fin 40"
  using dbl_consts dbl_12_05 dbl_more by simp_all

lemma bps_eval:
  "bps =
     [(Fin 0, Fin 12, 0, 50),
      (Fin c_12_1, Fin c_35_4, 51, 100),
      (Fin (71 / 2), Fin c_55_4, 101, 150),
      (Fin (111 / 2), Fin c_150_4, 151, 200),
      (Fin (301 / 2), Fin c_250_4, 201, 300),
      (Fin (501 / 2), Fin c_350_4, 301, 400),
      (Fin (701 / 2), Fin c_500_4, 401, 500)]"
  unfolding bps_def dbl_consts ..

lemma float_of_int_consts:
  "float_of_int 0 = Inr (Fin 0)"
  "float_of_int 49 = Inr (Fin 49)"
  "float_of_int 50 = Inr (Fin 50)"
  "float_of_int 51 = Inr (Fin 51)"
  "float_of_int 99 = Inr (Fin 99)"
  "float_of_int 101 = Inr (Fin 101)"
  "float_of_int 151 = Inr (Fin 151)"
  "float_of_int 201 = Inr (Fin 201)"
  "float_of_int 301 = Inr (Fin 301)"
  "float_of_int 401 = Inr (Fin 401)"
  by code_simp+

lemma slopes:
  "fdiv (Fin 50) (fsub (Fin 12) (Fin 0)) = Inr (Fin slope0)"
  "fdiv (Fin 49) (fsub (Fin c_35_4) (Fin c_12_1)) = Inr (Fin slope1)"
  "fdiv (Fin 49) (fsub (Fin c_55_4) (Fin (71 / 2))) = Inr (Fin slope2)"
  "fdiv (Fin 49) (fsub (Fin c_150_4) (Fin (111 / 2))) = Inr (Fin slope3)"
  "fdiv (Fin 99) (fsub (Fin c_250_4) (Fin (301 / 2))) = Inr (Fin slope4)"
  "fdiv (Fin 99) (fsub (Fin c_350_4) (Fin (501 / 2))) = Inr (Fin slope5)"
  "fdiv (Fin 99) (fsub (Fin c_500_4) (Fin (701 / 2))) = Inr (Fin slope6)"
  by code_simp+

lemma interp_ends:
  "interp slope0 0 0 0 = 0" "interp slope0 0 0 12 = 50"
  "interp slope1 c_12_1 51 c_12_1 = 51" "interp slope1 c_12_1 51 c_35_4 = 100"
  "interp slope2 (71 / 2) 101 (71 / 2) = 101" "interp slope2 (71 / 2) 101 c_55_4 = 150"
  "interp slope3 (111 / 2) 151 (111 / 2) = 151" "interp slope3 (111 / 2) 151 c_150_4 = 200"
  "interp slope4 (301 / 2) 201 (301 / 2) = 201" "interp slope4 (301 / 2) 201 c_250_4 = 300"
  "interp slope5 (501 / 2) 301 (501 / 2) = 301" "interp slope5 (501 / 2) 301 c_350_4 = 400"
  "interp slope6 (701 / 2) 401 (701 / 2) = 401" "interp slope6 (701 / 2) 401 c_500_4 = 500"
  by code_simp+


section \<open>The interpolation inside a band\<close>

lemma band_generic:
  assumes "float_of_int (i_hi - i_lo) = Inr di"
    and "fdiv di (fsub (Fin hi) (Fin lo)) = Inr (Fin s)"
    and "float_of_int i_lo = Inr (Fin (of_int i_lo))"
    and s: "0 \<le> s" "s \<le> 16" and "hi - lo \<le> 512" and "0 \<le> i_lo" "i_lo \<le> 512"
    and e: "interp s lo i_lo lo = i_lo" "interp s lo i_lo hi = i_hi"
    and v: "lo \<le> v" "v \<le> hi"
  shows "interpolate (Fin lo, Fin hi, i_lo, i_hi) (Fin v) = Inr (interp s lo i_lo v)"
    and "i_lo \<le> interp s lo i_lo v"
    and "interp s lo i_lo v \<le> i_hi"
proof -
  show "interpolate (Fin lo, Fin hi, i_lo, i_hi) (Fin v) = Inr (interp s lo i_lo v)"
    using assms by (intro interpolate_Fin) simp_all
  show "i_lo \<le> interp s lo i_lo v"
    using interp_mono [OF s(1) v(1), of lo i_lo] e(1) by simp
  show "interp s lo i_lo v \<le> i_hi"
    using interp_mono [OF s(1) v(2), of lo i_lo] e(2) by simp
qed

lemma band0:
  assumes "0 \<le> v" "v \<le> 12"
  shows "interpolate (Fin 0, Fin 12, 0, 50) (Fin v) = Inr (interp slope0 0 0 v)"
    and "0 \<le> interp slope0 0 0 v"
    and "interp slope0 0 0 v \<le> 50"
proof -
  note g = band_generic [where i_hi = 50 and i_lo = 0 and di = "Fin 50" and hi = "12"
      and lo = "0" and s = "slope0" and v = v]
  show "interpolate (Fin 0, Fin 12, 0, 50) (Fin v) = Inr (interp slope0 0 0 v)"
    using assms by (intro g(1)) (simp_all add: float_of_int_consts slopes interp_ends)
  show "0 \<le> interp slope0 0 0 v"
    using assms by (intro g(2)) (simp_all add: float_of_int_consts slopes interp_ends)
  show "interp slope0 0 0 v \<le> 50"
    using assms by (intro g(3)) (simp_all add: float_of_int_consts slopes interp_ends)
qed

lemma band1:
  assumes "c_12_1 \<le> v" "v \<le> c_35_4"
  shows "interpolate (Fin c_12_1, Fin c_35_4, 51, 100) (Fin v) = Inr (interp slope1 c_12_1 51 v)"
    and "51 \<le> interp slope1 c_12_1 51 v"
    and "interp slope1 c_12_1 51 v \<le> 100"
proof -
  note g = band_generic [where i_hi = 100 and i_lo = 51 and di = "Fin 49" and hi = "c_35_4"
      and lo = "c_12_1" and s = "slope1" and v = v]
  show "interpolate (Fin c_12_1, Fin c_35_4, 51, 100) (Fin v) = Inr (interp slope1 c_12_1 51 v)"
    using assms by (intro g(1)) (simp_all add: float_of_int_consts slopes interp_ends)
  show "51 \<le> interp slope1 c_12_1 51 v"
    using assms by (intro g(2)) (simp_all add: float_of_int_consts slopes interp_ends)
  show "interp slope1 c_12_1 51 v \<le> 100"
    using assms by (intro g(3)) (simp_all add: float_of_int_consts slopes interp_ends)
qed

lemma band2:
  assumes "(71 / 2) \<le> v" "v \<le> c_55_4"
  shows "interpolate (Fin (71 / 2), Fin c_55_4, 101, 150) (Fin v) = Inr (interp slope2 (71 / 2) 101 v)"
    and "101 \<le> interp slope2 (71 / 2) 101 v"
    and "interp slope2 (71 / 2) 101 v \<le> 150"
proof -
  note g = band_generic [where i_hi = 150 and i_lo = 101 and di = "Fin 49" and hi = "c_55_4"
      and lo = "71 / 2" and s = "slope2" and v = v]
  show "interpolate (Fin (71 / 2), Fin c_55_4, 101, 150) (Fin v) = Inr (interp slope2 (71 / 2) 101 v)"
    using assms by (intro g(1)) (simp_all add: float_of_int_consts slopes interp_ends)
  show "101 \<le> interp slope2 (71 / 2) 101 v"
    using assms by (intro g(2)) (simp_all add: float_of_int_consts slopes interp_ends)
  show "interp slope2 (71 / 2) 101 v \<le> 150"
    using assms by (intro g(3)) (simp_all add: float_of_int_consts slopes interp_ends)
qed

lemma band3:
  assumes "(111 / 2) \<le> v" "v \<le> c_150_4"
  shows "interpolate (Fin (111 / 2), Fin c_150_4, 151, 200) (Fin v) = Inr (interp slope3 (111 / 2) 151 v)"
    and "151 \<le> interp slope3 (111 / 2) 151 v"
    and "interp slope3 (111 / 2) 151 v \<le> 200"
proof -
  note g = band_generic [where i_hi = 200 and i_lo = 151 and di = "Fin 49" and hi = "c_150_4"
      and lo = "111 / 2" and s = "slope3" and v = v]
  show "interpolate (Fin (111 / 2), Fin c_150_4, 151, 200) (Fin v) = Inr (interp slope3 (111 / 2) 151 v)"
    using assms by (intro g(1)) (simp_all add: float_of_int_consts slopes interp_ends)
  show "151 \<le> interp slope3 (111 / 2) 151 v"
    using assms by (intro g(2)) (simp_all add: float_of_int_consts slopes interp_ends)
  show "interp slope3 (111 / 2) 151 v \<le> 200"
    using assms by (intro g(3)) (simp_all add: float_of_int_consts slopes interp_ends)
qed

lemma band4:
  assumes "(301 / 2) \<le> v" "v \<le> c_250_4"
  shows "interpolate (Fin (301 / 2), Fin c_250_4, 201, 300) (Fin v) = Inr (interp slope4 (301 / 2) 201 v)"
    and "201 \<le> interp slope4 (301 / 2) 201 v"
    and "interp slope4 (301 / 2) 201 v \<le> 300"
proof -
  note g = band_generic [where i_hi = 300 and i_lo = 201 and di = "Fin 99" and hi = "c_250_4"
      and lo = "301 / 2" and s = "slope4" and v = v]
  show "interpolate (Fin (301 / 2), Fin c_250_4, 201, 300) (Fin v) = Inr (interp slope4 (301 / 2) 201 v)"
    using assms by (intro g(1)) (simp_all add: float_of_int_consts slopes interp_ends)
  show "201 \<le> interp slope4 (301 / 2) 201 v"
    using assms by (intro g(2)) (simp_all add: float_of_int_consts slopes interp_ends)
  show "interp slope4 (301 / 2) 201 v \<le> 300"
    using assms by (intro g(3)) (simp_all add: float_of_int_consts slopes interp_ends)
qed

lemma band5:
  assumes "(501 / 2) \<le> v" "v \<le> c_350_4"
  shows "interpolate (Fin (501 / 2), Fin c_350_4, 301, 400) (Fin v) = Inr (interp slope5 (501 / 2) 301 v)"
    and "301 \<le> interp slope5 (501 / 2) 301 v"
    and "interp slope5 (501 / 2) 301 v \<le> 400"
proof -
  note g = band_generic [where i_hi = 400 and i_lo = 301 and di = "Fin 99" and hi = "c_350_4"
      and lo = "501 / 2" and s = "slope5" and v = v]
  show "interpolate (Fin (501 / 2), Fin c_350_4, 301, 400) (Fin v) = Inr (interp slope5 (501 / 2) 301 v)"
    using assms by (intro g(1)) (simp_all add: float_of_int_consts slopes interp_ends)
  show "301 \<le> interp slope5 (501 / 2) 301 v"
    using assms by (intro g(2)) (simp_all add: float_of_int_consts slopes interp_ends)
  show "interp slope5 (501 / 2) 301 v \<le> 400"
    using assms by (intro g(3)) (simp_all add: float_of_int_consts slopes interp_ends)
qed

lemma band6:
  assumes "(701 / 2) \<le> v" "v \<le> c_500_4"
  shows "interpolate (Fin (701 / 2), Fin c_500_4, 401, 500) (Fin v) = Inr (interp slope6 (701 / 2) 401 v)"
    and "401 \<le> interp slope6 (701 / 2) 401 v"
    and "interp slope6 (701 / 2) 401 v \<le> 500"
proof -
  note g = band_generic [where i_hi = 500 and i_lo = 401 and di = "Fin 99" and hi = "c_500_4"
      and lo = "701 / 2" and s = "slope6" and v = v]
  show "interpolate (Fin (701 / 2), Fin c_500_4, 401, 500) (Fin v) = Inr (interp slope6 (701 / 2) 401 v)"
    using assms by (intro g(1)) (simp_all add: float_of_int_consts slopes interp_ends)
  show "401 \<le> interp slope6 (701 / 2) 401 v"
    using assms by (intro g(2)) (simp_all add: float_of_int_consts slopes interp_ends)
  show "interp slope6 (701 / 2) 401 v \<le> 500"
    using assms by (intro g(3)) (simp_all add: float_of_int_consts slopes interp_ends)
qed

lemma band_loop_Fin:
  assumes "0 \<le> v"
  shows "band_loop bps (Fin v) =
    (if v \<le> 12 then Inr (Some (interp slope0 0 0 v))
     else if c_12_1 \<le> v \<and> v \<le> c_35_4 then Inr (Some (interp slope1 c_12_1 51 v))
     else if (71 / 2) \<le> v \<and> v \<le> c_55_4 then Inr (Some (interp slope2 (71 / 2) 101 v))
     else if (111 / 2) \<le> v \<and> v \<le> c_150_4 then Inr (Some (interp slope3 (111 / 2) 151 v))
     else if (301 / 2) \<le> v \<and> v \<le> c_250_4 then Inr (Some (interp slope4 (301 / 2) 201 v))
     else if (501 / 2) \<le> v \<and> v \<le> c_350_4 then Inr (Some (interp slope5 (501 / 2) 301 v))
     else if (701 / 2) \<le> v \<and> v \<le> c_500_4 then Inr (Some (interp slope6 (701 / 2) 401 v))
     else Inr None)"
  using assms
  by (simp add: bps_eval bind_err_def band0(1) band1(1) band2(1) band3(1) band4(1) band5(1)
        band6(1) cong: if_cong)

section \<open>The clamped lookup\<close>

lemma band_loop_NZero: "band_loop bps NZero = Inr (Some 0)"
  by code_simp

lemma clamp_fin:
  assumes "\<not> isnan p"
  shows "is_finite (pymin (pymax p (Fin 0)) (Fin c_500_4)) \<and>
    0 \<le> val (pymin (pymax p (Fin 0)) (Fin c_500_4)) \<and>
    val (pymin (pymax p (Fin 0)) (Fin c_500_4)) \<le> c_500_4"
  using assms by (cases p) (auto simp add: pymax_def pymin_def is_finite_def)

lemma band_loop_total:
  assumes "is_finite x" "0 \<le> val x"
  shows "\<exists>r. band_loop bps x = Inr r"
  using assms is_finite_cases [of x]
  by (auto simp add: band_loop_NZero band_loop_Fin)

lemma epa_unclamped:
  assumes "fle (Fin 0) x" "fle x (Fin c_500_4)"
  shows "epa_aqi_pm25 (Some x) = band_loop bps x"
  using assms unfolding epa_aqi_pm25_def dbl_consts
  by (cases x) (auto simp add: pymax_def pymin_def)

lemma epa_total: "\<exists>r. epa_aqi_pm25 pm25 = Inr r"
proof (cases pm25)
  case None
  then show ?thesis by (simp add: epa_aqi_pm25_def)
next
  case (Some p)
  show ?thesis
  proof (cases "isnan p")
    case True
    with Some show ?thesis by (simp add: epa_aqi_pm25_def)
  next
    case False
    from clamp_fin [OF False]
    have "\<exists>r. band_loop bps (pymin (pymax p (Fin 0)) (Fin c_500_4)) = Inr r"
      by (intro band_loop_total) simp_all
    with Some False show ?thesis
      unfolding epa_aqi_pm25_def dbl_consts by simp
  qed
qed

lemma interp_40: "interp slope2 (71 / 2) 101 40 = 112"
  by code_simp

lemma epa_zero: "epa_aqi_pm25 (Some (Fin 0)) = Inr (Some 0)"
proof -
  have "epa_aqi_pm25 (Some (Fin 0)) = band_loop bps (Fin 0)"
    by (rule epa_unclamped) simp_all
  then show ?thesis by (simp add: band_loop_Fin interp_ends)
qed

lemma epa_top: "epa_aqi_pm25 (Some (Fin c_500_4)) = Inr (Some 500)"
proof -
  have "epa_aqi_pm25 (Some (Fin c_500_4)) = band_loop bps (Fin c_500_4)"
    by (rule epa_unclamped) simp_all
  then show ?thesis by (simp add: band_loop_Fin interp_ends)
qed

subsection \<open>The lookup is monotone where it is defined\<close>

lemma band_loop_Some:
  assumes "0 \<le> v" "band_loop bps (Fin v) = Inr (Some a)"
  obtains
    (b0) "0 \<le> v" "v \<le> 12" "a = interp slope0 0 0 v" "0 \<le> a" "a \<le> 50"
  | (b1) "c_12_1 \<le> v" "v \<le> c_35_4" "a = interp slope1 c_12_1 51 v" "51 \<le> a" "a \<le> 100"
  | (b2) "(71 / 2) \<le> v" "v \<le> c_55_4" "a = interp slope2 (71 / 2) 101 v" "101 \<le> a" "a \<le> 150"
  | (b3) "(111 / 2) \<le> v" "v \<le> c_150_4" "a = interp slope3 (111 / 2) 151 v" "151 \<le> a" "a \<le> 200"
  | (b4) "(301 / 2) \<le> v" "v \<le> c_250_4" "a = interp slope4 (301 / 2) 201 v" "201 \<le> a" "a \<le> 300"
  | (b5) "(501 / 2) \<le> v" "v \<le> c_350_4" "a = interp slope5 (501 / 2) 301 v" "301 \<le> a" "a \<le> 400"
  | (b6) "(701 / 2) \<le> v" "v \<le> c_500_4" "a = interp slope6 (701 / 2) 401 v" "401 \<le> a" "a \<le> 500"
proof -
  from assms(2) have r: "(if v \<le> 12 then Inr (Some (interp slope0 0 0 v))
     else if c_12_1 \<le> v \<and> v \<le> c_35_4 then Inr (Some (interp slope1 c_12_1 51 v))
     else if (71 / 2) \<le> v \<and> v \<le> c_55_4 then Inr (Some (interp slope2 (71 / 2) 101 v))
     else if (111 / 2) \<le> v \<and> v \<le> c_150_4 then Inr (Some (interp slope3 (111 / 2) 151 v))
     else if (301 / 2) \<le> v \<and> v \<le> c_250_4 then Inr (Some (interp slope4 (301 / 2) 201 v))
     else if (501 / 2) \<le> v \<and> v \<le> c_350_4 then Inr (Some (interp slope5 (501 / 2) 301 v))
     else if (701 / 2) \<le> v \<and> v \<le> c_500_4 then Inr (Some (interp slope6 (701 / 2) 401 v))
     else Inr None) = (Inr (Some a) :: pyerror + int option)"
    unfolding band_loop_Fin [OF assms(1)] .
  consider
      "v \<le> 12"
    |
      "\<not> (v \<le> 12)" "c_12_1 \<le> v \<and> v \<le> c_35_4"
    |
      "\<not> (v \<le> 12)" "\<not> (c_12_1 \<le> v \<and> v \<le> c_35_4)" "(71 / 2) \<le> v \<and> v \<le> c_55_4"
    |
      "\<not> (v \<le> 12)" "\<not> (c_12_1 \<le> v \<and> v \<le> c_35_4)" "\<not> ((71 / 2) \<le> v \<and> v \<le> c_55_4)" "(111 / 2) \<le> v \<and> v \<le> c_150_4"
    |
      "\<not> (v \<le> 12)" "\<not> (c_12_1 \<le> v \<and> v \<le> c_35_4)" "\<not> ((71 / 2) \<le> v \<and> v \<le> c_55_4)" "\<not> ((111 / 2) \<le> v \<and> v \<le> c_150_4)" "(301 / 2) \<le> v \<and> v \<le> c_250_4"
    |
      "\<not> (v \<le> 12)" "\<not> (c_12_1 \<le> v \<and> v \<le> c_35_4)" "\<not> ((71 / 2) \<le> v \<and> v \<le> c_55_4)" "\<not> ((111 / 2) \<le> v \<and> v \<le> c_150_4)" "\<not> ((301 / 2) \<le> v \<and> v \<le> c_250_4)" "(501 / 2) \<le> v \<and> v \<le> c_350_4"
    |
      "\<not> (v \<le> 12)" "\<not> (c_12_1 \<le> v \<and> v \<le> c_35_4)" "\<not> ((71 / 2) \<le> v \<and> v \<le> c_55_4)" "\<not> ((111 / 2) \<le> v \<and> v \<le> c_150_4)" "\<not> ((301 / 2) \<le> v \<and> v \<le> c_250_4)" "\<not> ((501 / 2) \<le> v \<and> v \<le> c_350_4)" "(701 / 2) \<le> v \<and> v \<le> c_500_4"
    |
      "\<not> (v \<le> 12)" "\<not> (c_12_1 \<le> v \<and> v \<le> c_35_4)" "\<not> ((71 / 2) \<le> v \<and> v \<le> c_55_4)" "\<not> ((111 / 2) \<le> v \<and> v \<le> c_150_4)" "\<not> ((301 / 2) \<le> v \<and> v \<le> c_250_4)" "\<not> ((501 / 2) \<le> v \<and> v \<le> c_350_4)" "\<not> ((701 / 2) \<le> v \<and> v \<le> c_500_4)"
    by blast
  then show ?thesis
  proof cases
    case 1
    from r have a: "a = interp slope0 0 0 v"
      by (simp only: 1 if_True if_False simp_thms sum.inject option.inject)
    show ?thesis
      using assms(1) 1 a band0(2) [of v] band0(3) [of v] by (intro b0) simp_all
  next
    case 2
    from r have a: "a = interp slope1 c_12_1 51 v"
      by (simp only: 2 if_True if_False simp_thms sum.inject option.inject)
    show ?thesis
      using assms(1) 2 a band1(2) [of v] band1(3) [of v] by (intro b1) simp_all
  next
    case 3
    from r have a: "a = interp slope2 (71 / 2) 101 v"
      by (simp only: 3 if_True if_False simp_thms sum.inject option.inject)
    show ?thesis
      using assms(1) 3 a band2(2) [of v] band2(3) [of v] by (intro b2) simp_all
  next
    case 4
    from r have a: "a = interp slope3 (111 / 2) 151 v"
      by (simp only: 4 if_True if_False simp_thms sum.inject option.inject)
    show ?thesis
      using assms(1) 4 a band3(2) [of v] band3(3) [of v] by (intro b3) simp_all
  next
    case 5
    from r have a: "a = interp slope4 (301 / 2) 201 v"
      by (simp only: 5 if_True if_False simp_thms sum.inject option.inject)
    show ?thesis
      using assms(1) 5 a band4(2) [of v] band4(3) [of v] by (intro b4) simp_all
  next
    case 6
    from r have a: "a = interp slope5 (501 / 2) 301 v"
      by (simp only: 6 if_True if_False simp_thms sum.inject option.inject)
    show ?thesis
      using assms(1) 6 a band5(2) [of v] band5(3) [of v] by (intro b5) simp_all
  next
    case 7
    from r have a: "a = interp slope6 (701 / 2) 401 v"
      by (simp only: 7 if_True if_False simp_thms sum.inject option.inject)
    show ?thesis
      using assms(1) 7 a band6(2) [of v] band6(3) [of v] by (intro b6) simp_all
  next
    case 8
    from r show ?thesis by (simp only: 8 if_False simp_thms sum.inject option.distinct)
  qed
qed

lemma band_loop_mono:
  assumes v: "0 \<le> v" and vw: "v \<le> w"
    and a: "band_loop bps (Fin v) = Inr (Some a)"
    and b: "band_loop bps (Fin w) = Inr (Some b)"
  shows "a \<le> b"
proof -
  have w: "0 \<le> w" using v vw by simp
  from v a show ?thesis
  proof (cases rule: band_loop_Some)
    case b0
    note A = b0
    show ?thesis
      using w b by (cases rule: band_loop_Some) (use vw A in \<open>simp_all add: interp_mono\<close>)
  next
    case b1
    note A = b1
    show ?thesis
      using w b by (cases rule: band_loop_Some) (use vw A in \<open>simp_all add: interp_mono\<close>)
  next
    case b2
    note A = b2
    show ?thesis
      using w b by (cases rule: band_loop_Some) (use vw A in \<open>simp_all add: interp_mono\<close>)
  next
    case b3
    note A = b3
    show ?thesis
      using w b by (cases rule: band_loop_Some) (use vw A in \<open>simp_all add: interp_mono\<close>)
  next
    case b4
    note A = b4
    show ?thesis
      using w b by (cases rule: band_loop_Some) (use vw A in \<open>simp_all add: interp_mono\<close>)
  next
    case b5
    note A = b5
    show ?thesis
      using w b by (cases rule: band_loop_Some) (use vw A in \<open>simp_all add: interp_mono\<close>)
  next
    case b6
    note A = b6
    show ?thesis
      using w b by (cases rule: band_loop_Some) (use vw A in \<open>simp_all add: interp_mono\<close>)
  qed
qed

lemma band_loop_val:
  assumes "is_finite x"
  shows "band_loop bps x = band_loop bps (Fin (val x))"
  using assms is_finite_cases [of x]
  by (auto simp add: band_loop_NZero band_loop_Fin interp_ends)

lemma epa_12: "epa_aqi_pm25 (Some (Fin 12)) = Inr (Some 50)"
proof -
  have "epa_aqi_pm25 (Some (Fin 12)) = band_loop bps (Fin 12)"
    by (rule epa_unclamped) simp_all
  then show ?thesis by (simp add: band_loop_Fin interp_ends)
qed

lemma epa_12_1: "epa_aqi_pm25 (Some (Fin c_12_1)) = Inr (Some 51)"
proof -
  have "epa_aqi_pm25 (Some (Fin c_12_1)) = band_loop bps (Fin c_12_1)"
    by (rule epa_unclamped) simp_all
  then show ?thesis by (simp add: band_loop_Fin interp_ends)
qed

lemma epa_12_05:
  "epa_aqi_pm25 (Some (Fin (3391773469363405 / 281474976710656))) = Inr None"
proof -
  have "epa_aqi_pm25 (Some (Fin (3391773469363405 / 281474976710656)))
      = band_loop bps (Fin (3391773469363405 / 281474976710656))"
    by (rule epa_unclamped) simp_all
  then show ?thesis by (simp add: band_loop_Fin)
qed

section \<open>The claims\<close>

subsection \<open>\<open>assess_aqi\<close>: the integer bands\<close>

text \<open>
  Claim C4.  \<open>assess_aqi\<close> labels the integer bands \<open>[0,50]\<close> Good, \<open>[51,100]\<close> Moderate,
  \<open>[101,150]\<close> Unhealthy for Sensitive Groups, \<open>[151,200]\<close> Unhealthy, \<open>[201,300]\<close> Very
  Unhealthy, and every integer above 300 (above 500 too) gets the Hazardous assessment:
  no value is rejected.  In particular 0 and 50 are Good, 51 is Moderate, 301 is
  Hazardous, and \<open>None\<close> gives the Unknown sentinel with the guidance
  "No AQI available.".
\<close>

theorem assess_aqi_bands:
  "(0 \<le> a1 \<and> a1 \<le> 50 \<longrightarrow> fst (assess_aqi (Some a1)) = ''Good'') \<and>
   (51 \<le> a2 \<and> a2 \<le> 100 \<longrightarrow> fst (assess_aqi (Some a2)) = ''Moderate'') \<and>
   (101 \<le> a3 \<and> a3 \<le> 150 \<longrightarrow>
      fst (assess_aqi (Some a3)) = ''Unhealthy for Sensitive Groups'') \<and>
   (151 \<le> a4 \<and> a4 \<le> 200 \<longrightarrow> fst (assess_aqi (Some a4)) = ''Unhealthy'') \<and>
   (201 \<le> a5 \<and> a5 \<le> 300 \<longrightarrow> fst (assess_aqi (Some a5)) = ''Very Unhealthy'') \<and>
   (300 < a6 \<longrightarrow>
      assess_aqi (Some a6) =
        (''Hazardous'', brown_circle,
         ''Health warnings of emergency conditions: avoid all outdoor exertion.'',
         ''hazardous'')) \<and>
   fst (assess_aqi (Some 0)) = ''Good'' \<and>
   fst (assess_aqi (Some 50)) = ''Good'' \<and>
   fst (assess_aqi (Some 51)) = ''Moderate'' \<and>
   fst (assess_aqi (Some 301)) = ''Hazardous'' \<and>
   assess_aqi None = (''Unknown'', white_circle, ''No AQI available.'', '''')"
  by (simp add: assess_aqi_def)

theorem assess_aqi_bands_witness:
  "fst (assess_aqi (Some 0)) = ''Good'' \<and>
   fst (assess_aqi (Some 100)) = ''Moderate'' \<and>
   fst (assess_aqi (Some 125)) = ''Unhealthy for Sensitive Groups'' \<and>
   fst (assess_aqi (Some 151)) = ''Unhealthy'' \<and>
   fst (assess_aqi (Some 300)) = ''Very Unhealthy'' \<and>
   fst (assess_aqi (Some 501)) = ''Hazardous'' \<and>
   fst (assess_aqi (Some 100000)) = ''Hazardous''"
  using assess_aqi_bands [of 0 100 125 151 300 501]
    assess_aqi_bands [of 0 100 125 151 300 100000]
  by simp

subsection \<open>\<open>assess_pm25\<close>: the bands, their boundaries and the sentinel\<close>

lemma fle_not_nan: "fle a x \<Longrightarrow> \<not> isnan x"
  by (cases x; cases a) simp_all

lemma flt_not_nan: "flt a x \<Longrightarrow> \<not> isnan x"
  by (cases x; cases a) simp_all

lemma fle_between: "fle (Fin a) x \<Longrightarrow> fle x (Fin b) \<Longrightarrow> a \<le> b"
  by (cases x) simp_all

lemma flt_between: "flt (Fin a) x \<Longrightarrow> fle x (Fin b) \<Longrightarrow> a < b"
  by (cases x) simp_all

lemma assess_pm25_band0:
  assumes a: "fle (Fin 0) x" and b: "fle x (Fin 12)"
  shows "assess_pm25 (Some x) =
        (''Good'',
         ''Within EPA 24h guideline (0'' @ en_dash @ ''12 '' @ micro_sign @ ''g/m''
           @ superscript_three @ '').'',
         ''good'')"
proof -
  note n = fle_not_nan [OF a]
  show ?thesis
    unfolding assess_pm25_def dbl_consts
    by (simp only: option.case n a b if_True if_False simp_thms)
qed

lemma assess_pm25_band1:
  assumes a: "fle (Fin c_12_1) x" and b: "fle x (Fin c_35_4)"
  shows "assess_pm25 (Some x) =
        (''Moderate'', ''Consider caution for unusually sensitive people.'', ''moderate'')"
proof -
  note n = fle_not_nan [OF a]
  have e0: "\<not> (fle (Fin 0) x \<and> fle x (Fin 12))"
    using fle_between [OF a, where b = "12"] by auto
  show ?thesis
    unfolding assess_pm25_def dbl_consts
    by (simp only: option.case n e0 a b if_True if_False simp_thms)
qed

lemma assess_pm25_band2:
  assumes a: "fle (Fin (71 / 2)) x" and b: "fle x (Fin c_55_4)"
  shows "assess_pm25 (Some x) =
        (''USG'', ''Sensitive groups should reduce prolonged outdoor exertion.'', ''usg'')"
proof -
  note n = fle_not_nan [OF a]
  have e0: "\<not> (fle (Fin 0) x \<and> fle x (Fin 12))"
    using fle_between [OF a, where b = "12"] by auto
  have e1: "\<not> (fle (Fin c_12_1) x \<and> fle x (Fin c_35_4))"
    using fle_between [OF a, where b = "c_35_4"] by auto
  show ?thesis
    unfolding assess_pm25_def dbl_consts
    by (simp only: option.case n e0 e1 a b if_True if_False simp_thms)
qed

lemma assess_pm25_band3:
  assumes a: "fle (Fin (111 / 2)) x" and b: "fle x (Fin c_150_4)"
  shows "assess_pm25 (Some x) =
        (''Unhealthy'',
         ''Everyone may experience health effects'' @ em_dash @ ''limit outdoor exertion.'',
         ''unhealthy'')"
proof -
  note n = fle_not_nan [OF a]
  have e0: "\<not> (fle (Fin 0) x \<and> fle x (Fin 12))"
    using fle_between [OF a, where b = "12"] by auto
  have e1: "\<not> (fle (Fin c_12_1) x \<and> fle x (Fin c_35_4))"
    using fle_between [OF a, where b = "c_35_4"] by auto
  have e2: "\<not> (fle (Fin (71 / 2)) x \<and> fle x (Fin c_55_4))"
    using fle_between [OF a, where b = "c_55_4"] by auto
  show ?thesis
    unfolding assess_pm25_def dbl_consts
    by (simp only: option.case n e0 e1 e2 a b if_True if_False simp_thms)
qed

lemma assess_pm25_band4:
  assumes a: "fle (Fin (301 / 2)) x" and b: "fle x (Fin c_250_4)"
  shows "assess_pm25 (Some x) =
        (''Very Unhealthy'',
         ''Avoid outdoor activities; use masks/air purifiers if possible.'',
         ''veryunhealthy'')"
proof -
  note n = fle_not_nan [OF a]
  have e0: "\<not> (fle (Fin 0) x \<and> fle x (Fin 12))"
    using fle_between [OF a, where b = "12"] by auto
  have e1: "\<not> (fle (Fin c_12_1) x \<and> fle x (Fin c_35_4))"
    using fle_between [OF a, where b = "c_35_4"] by auto
  have e2: "\<not> (fle (Fin (71 / 2)) x \<and> fle x (Fin c_55_4))"
    using fle_between [OF a, where b = "c_55_4"] by auto
  have e3: "\<not> (fle (Fin (111 / 2)) x \<and> fle x (Fin c_150_4))"
    using fle_between [OF a, where b = "c_150_4"] by auto
  show ?thesis
    unfolding assess_pm25_def dbl_consts
    by (simp only: option.case n e0 e1 e2 e3 a b if_True if_False simp_thms)
qed

lemma assess_pm25_band5:
  assumes a: "flt (Fin c_250_4) x"
  shows "assess_pm25 (Some x) =
        (''Hazardous'',
         ''Serious risk'' @ em_dash @ ''stay indoors with clean air if available.'',
         ''hazardous'')"
proof -
  note n = flt_not_nan [OF a]
  have e0: "\<not> (fle (Fin 0) x \<and> fle x (Fin 12))"
    using flt_between [OF a, where b = "12"] by auto
  have e1: "\<not> (fle (Fin c_12_1) x \<and> fle x (Fin c_35_4))"
    using flt_between [OF a, where b = "c_35_4"] by auto
  have e2: "\<not> (fle (Fin (71 / 2)) x \<and> fle x (Fin c_55_4))"
    using flt_between [OF a, where b = "c_55_4"] by auto
  have e3: "\<not> (fle (Fin (111 / 2)) x \<and> fle x (Fin c_150_4))"
    using flt_between [OF a, where b = "c_150_4"] by auto
  have e4: "\<not> (fle (Fin (301 / 2)) x \<and> fle x (Fin c_250_4))"
    using flt_between [OF a, where b = "c_250_4"] by auto
  show ?thesis
    unfolding assess_pm25_def dbl_consts
    by (simp only: option.case n e0 e1 e2 e3 e4 if_True if_False simp_thms)
qed

lemma assess_pm25_points:
  "fst (assess_pm25 (Some (dbl 12.0))) = ''Good'' \<and>
   fst (assess_pm25 (Some (dbl 12.1))) = ''Moderate'' \<and>
   assess_pm25 None = (em_dash, ''No PM2.5 data.'', '''') \<and>
   assess_pm25 (Some NaN) = (em_dash, ''No PM2.5 data.'', '''')"
  unfolding assess_pm25_def dbl_consts by simp

text \<open>
  Claim C7.  \<open>assess_pm25\<close> classifies the raw concentration directly against the
  breakpoint ranges: every concentration in \<open>[0, 12.0]\<close> gets the Good assessment, in
  \<open>[12.1, 35.4]\<close> Moderate, in \<open>[35.5, 55.4]\<close> USG, in \<open>[55.5, 150.4]\<close> Unhealthy, in
  \<open>[150.5, 250.4]\<close> Very Unhealthy, and above \<open>250.4\<close> Hazardous.  At the boundary the
  float \<open>12.0\<close> is labelled Good and the float \<open>12.1\<close> Moderate; \<open>None\<close> and NaN give the
  sentinel: an em dash, "No PM2.5 data." and an empty class.
\<close>

theorem assess_pm25_boundaries:
  "(fle (Fin 0) x1 \<and> fle x1 (dbl 12.0) \<longrightarrow>
      assess_pm25 (Some x1) =
        (''Good'',
         ''Within EPA 24h guideline (0'' @ en_dash @ ''12 '' @ micro_sign @ ''g/m''
           @ superscript_three @ '').'',
         ''good'')) \<and>
   (fle (dbl 12.1) x2 \<and> fle x2 (dbl 35.4) \<longrightarrow>
      assess_pm25 (Some x2) =
        (''Moderate'', ''Consider caution for unusually sensitive people.'', ''moderate'')) \<and>
   (fle (dbl 35.5) x3 \<and> fle x3 (dbl 55.4) \<longrightarrow>
      assess_pm25 (Some x3) =
        (''USG'', ''Sensitive groups should reduce prolonged outdoor exertion.'', ''usg'')) \<and>
   (fle (dbl 55.5) x4 \<and> fle x4 (dbl 150.4) \<longrightarrow>
      assess_pm25 (Some x4) =
        (''Unhealthy'',
         ''Everyone may experience health effects'' @ em_dash @ ''limit outdoor exertion.'',
         ''unhealthy'')) \<and>
   (fle (dbl 150.5) x5 \<and> fle x5 (dbl 250.4) \<longrightarrow>
      assess_pm25 (Some x5) =
        (''Very Unhealthy'',
         ''Avoid outdoor activities; use masks/air purifiers if possible.'',
         ''veryunhealthy'')) \<and>
   (flt (dbl 250.4) x6 \<longrightarrow>
      assess_pm25 (Some x6) =
        (''Hazardous'',
         ''Serious risk'' @ em_dash @ ''stay indoors with clean air if available.'',
         ''hazardous'')) \<and>
   fst (assess_pm25 (Some (dbl 12.0))) = ''Good'' \<and>
   fst (assess_pm25 (Some (dbl 12.1))) = ''Moderate'' \<and>
   assess_pm25 None = (em_dash, ''No PM2.5 data.'', '''') \<and>
   assess_pm25 (Some NaN) = (em_dash, ''No PM2.5 data.'', '''')"
  unfolding dbl_consts
  using assess_pm25_band0 [of x1] assess_pm25_band1 [of x2] assess_pm25_band2 [of x3]
    assess_pm25_band3 [of x4] assess_pm25_band4 [of x5] assess_pm25_band5 [of x6]
    assess_pm25_points [unfolded dbl_consts]
  by blast

theorem assess_pm25_boundaries_witness:
  "fst (assess_pm25 (Some (Fin 5))) = ''Good'' \<and>
   fst (assess_pm25 (Some (Fin 20))) = ''Moderate'' \<and>
   fst (assess_pm25 (Some (Fin 40))) = ''USG'' \<and>
   fst (assess_pm25 (Some (Fin 100))) = ''Unhealthy'' \<and>
   fst (assess_pm25 (Some (Fin 200))) = ''Very Unhealthy'' \<and>
   fst (assess_pm25 (Some (Fin 300))) = ''Hazardous'' \<and>
   fst (assess_pm25 (Some PInf)) = ''Hazardous''"
  using assess_pm25_boundaries [of "Fin 5" "Fin 20" "Fin 40" "Fin 100" "Fin 200" "Fin 300"]
    assess_pm25_boundaries [of "Fin 5" "Fin 20" "Fin 40" "Fin 100" "Fin 200" PInf]
  unfolding dbl_consts by simp

subsection \<open>The fall-through to Hazardous\<close>

text \<open>
  Claim C9.  A number that matches none of the listed closed bands falls through to the
  last \<open>return\<close>.  \<open>assess_aqi\<close> gives the Hazardous assessment for every integer
  outside \<open>[0, 300]\<close>, the negative ones included; \<open>assess_pm25\<close> gives it for every
  concentration that is negative, or strictly inside one of the four gaps between its
  bands (the float \<open>12.05\<close> is one), or above \<open>250.4\<close>.
\<close>

theorem hazardous_fallthrough:
  "(a < 0 \<or> 300 < a \<longrightarrow>
      assess_aqi (Some a) =
        (''Hazardous'', brown_circle,
         ''Health warnings of emergency conditions: avoid all outdoor exertion.'',
         ''hazardous'')) \<and>
   (flt x (Fin 0) \<or>
    flt (dbl 12.0) x \<and> flt x (dbl 12.1) \<or>
    flt (dbl 35.4) x \<and> flt x (dbl 35.5) \<or>
    flt (dbl 55.4) x \<and> flt x (dbl 55.5) \<or>
    flt (dbl 150.4) x \<and> flt x (dbl 150.5) \<or>
    flt (dbl 250.4) x \<longrightarrow>
      assess_pm25 (Some x) =
        (''Hazardous'',
         ''Serious risk'' @ em_dash @ ''stay indoors with clean air if available.'',
         ''hazardous'')) \<and>
   fst (assess_aqi (Some (- 1))) = ''Hazardous'' \<and>
   fst (assess_pm25 (Some (dbl 12.05))) = ''Hazardous''"
proof (intro conjI impI)
  assume "a < 0 \<or> 300 < a"
  then show "assess_aqi (Some a) =
        (''Hazardous'', brown_circle,
         ''Health warnings of emergency conditions: avoid all outdoor exertion.'',
         ''hazardous'')"
    by (auto simp add: assess_aqi_def)
next
  assume "flt x (Fin 0) \<or>
    flt (dbl 12.0) x \<and> flt x (dbl 12.1) \<or>
    flt (dbl 35.4) x \<and> flt x (dbl 35.5) \<or>
    flt (dbl 55.4) x \<and> flt x (dbl 55.5) \<or>
    flt (dbl 150.4) x \<and> flt x (dbl 150.5) \<or>
    flt (dbl 250.4) x"
  then show "assess_pm25 (Some x) =
        (''Hazardous'',
         ''Serious risk'' @ em_dash @ ''stay indoors with clean air if available.'',
         ''hazardous'')"
    unfolding assess_pm25_def dbl_consts
    by (cases x) auto
next
  show "fst (assess_aqi (Some (- 1))) = ''Hazardous''"
    by (simp add: assess_aqi_def)
next
  show "fst (assess_pm25 (Some (dbl 12.05))) = ''Hazardous''"
    unfolding assess_pm25_def dbl_consts dbl_12_05 by simp
qed

theorem hazardous_fallthrough_witness:
  "fst (assess_aqi (Some (- 7))) = ''Hazardous'' \<and>
   fst (assess_aqi (Some 1000)) = ''Hazardous'' \<and>
   fst (assess_pm25 (Some (Fin (- 3)))) = ''Hazardous'' \<and>
   flt (dbl 12.0) (dbl 12.05) \<and> flt (dbl 12.05) (dbl 12.1) \<and>
   assess_pm25 (Some (dbl 12.05)) =
     (''Hazardous'',
      ''Serious risk'' @ em_dash @ ''stay indoors with clean air if available.'',
      ''hazardous'')"
  using hazardous_fallthrough [of "- 7" "Fin (- 3)"]
    hazardous_fallthrough [of 1000 "dbl 12.05"]
  unfolding dbl_consts dbl_12_05 by simp

subsection \<open>\<open>assess_humidity\<close>: the bands are exhaustive\<close>

lemma humidity_band_cases:
  "\<not> isnan h \<Longrightarrow>
     fle (Fin 40) h \<and> fle h (Fin 60) \<or> fle (Fin 30) h \<and> flt h (Fin 40) \<or>
      flt (Fin 60) h \<and> fle h (Fin 70) \<or> flt h (Fin 30) \<or> flt (Fin 70) h"
  by (cases h) auto

lemma assess_humidity_guidance:
  "\<not> isnan h \<Longrightarrow>
     snd (assess_humidity (Some h)) =
       (if fle (Fin 40) h \<and> fle h (Fin 60) then ''Comfort range (40'' @ en_dash @ ''60%).''
        else if fle (Fin 30) h \<and> flt h (Fin 40) then
          ''Slightly dry: consider humidifier (target '' @ ge_sign @ ''40%).''
        else if flt (Fin 60) h \<and> fle h (Fin 70) then
          ''Slightly humid: increase ventilation; target '' @ le_sign @ ''60%.''
        else if flt h (Fin 30) then ''Low humidity: dryness and irritation possible.''
        else ''High humidity: mold and discomfort possible.'')"
  using humidity_band_cases [of h] unfolding assess_humidity_def
  by (simp only: option.case if_False snd_conv split: if_split) blast

lemma guidance_not_dash:
  "''Comfort range (40'' @ en_dash @ ''60%).'' \<noteq> em_dash"
  "''Slightly dry: consider humidifier (target '' @ ge_sign @ ''40%).'' \<noteq> em_dash"
  "''Slightly humid: increase ventilation; target '' @ le_sign @ ''60%.'' \<noteq> em_dash"
  "''Low humidity: dryness and irritation possible.'' \<noteq> em_dash"
  "''High humidity: mold and discomfort possible.'' \<noteq> em_dash"
  by (simp_all add: em_dash_def)

text \<open>
  Claim C10.  The five guidance bands of \<open>assess_humidity\<close>, \<open>[40,60]\<close>, \<open>[30,40)\<close>,
  \<open>(60,70]\<close>, \<open><30\<close> and \<open>>70\<close>, cover every humidity that is not NaN (the infinities
  too), so the last \<open>return\<close>, whose guidance is an em dash, is never reached: the guidance
  returned is never the em dash.
\<close>

theorem humidity_bands_exhaustive:
  "\<not> isnan h \<Longrightarrow>
     (fle (Fin 40) h \<and> fle h (Fin 60) \<or> fle (Fin 30) h \<and> flt h (Fin 40) \<or>
      flt (Fin 60) h \<and> fle h (Fin 70) \<or> flt h (Fin 30) \<or> flt (Fin 70) h) \<and>
     snd (assess_humidity (Some h)) \<noteq> em_dash"
proof
  assume h: "\<not> isnan h"
  then show "fle (Fin 40) h \<and> fle h (Fin 60) \<or> fle (Fin 30) h \<and> flt h (Fin 40) \<or>
      flt (Fin 60) h \<and> fle h (Fin 70) \<or> flt h (Fin 30) \<or> flt (Fin 70) h"
    by (rule humidity_band_cases)
  show "snd (assess_humidity (Some h)) \<noteq> em_dash"
    unfolding assess_humidity_guidance [OF h]
    by (simp only: guidance_not_dash split: if_split) simp
qed

theorem humidity_bands_exhaustive_witness:
  "\<not> isnan (Fin 65) \<and> flt (Fin 60) (Fin 65) \<and> fle (Fin 65) (Fin 70) \<and>
   snd (assess_humidity (Some (Fin 65))) \<noteq> em_dash \<and>
   \<not> isnan PInf \<and> flt (Fin 70) PInf \<and> snd (assess_humidity (Some PInf)) \<noteq> em_dash"
  using humidity_bands_exhaustive [of "Fin 65"] humidity_bands_exhaustive [of PInf]
  by simp

subsection \<open>No classifier raises\<close>

lemma nat_digits_nonempty: "nat_digits n \<noteq> []"
  by (subst nat_digits.simps) simp

lemma py_format_f_nonempty: "py_format_f d v \<noteq> []"
  by (simp add: py_format_f_def Let_def nat_digits_nonempty)

lemma assess_temp_total:
  "\<exists>d g. assess_temp value to_unit = Inr (d, g) \<and> d \<noteq> [] \<and> g \<noteq> []"
proof (cases "value")
  case None
  then show ?thesis by (simp add: assess_temp_def em_dash_def)
next
  case (Some t)
  obtain q where q: "fdiv (fmul t (Fin 9)) (Fin 5) = Inr q" by (simp add: fdiv_def)
  obtain c where c: "fdiv (fmul (fsub t (Fin 32)) (Fin 5)) (Fin 9) = Inr c" by (simp add: fdiv_def)
  show ?thesis unfolding Some assess_temp_def
    by (simp add: q c bind_err_def em_dash_def py_format_f_nonempty)
qed

text \<open>
  Claim C5.  Every classifier of the engine returns a result for every input, NaN,
  \<open>None\<close>, negative numbers, huge numbers and the infinities included: \<open>epa_aqi_pm25\<close>
  and \<open>assess_temp\<close>, the two that divide and round, never raise, and the other four
  contain no operation that can.  The label or display string and the guidance they
  return are never empty.
\<close>

theorem classifiers_total:
  "(\<exists>r. epa_aqi_pm25 pm25 = Inr r) \<and>
   fst (assess_aqi aqi) \<noteq> [] \<and> fst (snd (snd (assess_aqi aqi))) \<noteq> [] \<and>
   fst (assess_pm25 pm) \<noteq> [] \<and> fst (snd (assess_pm25 pm)) \<noteq> [] \<and>
   (\<exists>d g. assess_temp value to_unit = Inr (d, g) \<and> d \<noteq> [] \<and> g \<noteq> []) \<and>
   fst (assess_humidity h) \<noteq> [] \<and> snd (assess_humidity h) \<noteq> [] \<and>
   fst (assess_pressure p) \<noteq> [] \<and> snd (assess_pressure p) \<noteq> []"
proof (intro conjI)
  show "\<exists>r. epa_aqi_pm25 pm25 = Inr r" by (rule epa_total)
  show "fst (assess_aqi aqi) \<noteq> []" "fst (snd (snd (assess_aqi aqi))) \<noteq> []"
    by (simp_all add: assess_aqi_def split: option.split)
  show "fst (assess_pm25 pm) \<noteq> []" "fst (snd (assess_pm25 pm)) \<noteq> []"
    by (simp_all add: assess_pm25_def em_dash_def split: option.split)
  show "\<exists>d g. assess_temp value to_unit = Inr (d, g) \<and> d \<noteq> [] \<and> g \<noteq> []"
    by (rule assess_temp_total)
  show "fst (assess_humidity h) \<noteq> []" "snd (assess_humidity h) \<noteq> []"
    by (simp_all add: assess_humidity_def em_dash_def py_format_f_nonempty split: option.split)
  show "fst (assess_pressure p) \<noteq> []" "snd (assess_pressure p) \<noteq> []"
    by (simp_all add: assess_pressure_def em_dash_def py_format_f_nonempty split: option.split)
qed


subsection \<open>\<open>epa_aqi_pm25\<close>: the worked example\<close>

text \<open>
  Claim C1, amended.  For the concentration \<open>40.0\<close> the loop stops in the band
  \<open>[35.5, 55.4]\<close> with the indexes \<open>[101, 150]\<close>; the interpolation
  \<open>(150 - 101) / (55.4 - 35.5) * (40.0 - 35.5) + 101\<close>, rounded to the nearest integer,
  is 112 (in floats and in exact arithmetic alike), not 111; so \<open>epa_aqi_pm25\<close> returns
  112, and \<open>assess_aqi\<close> of it is Unhealthy for Sensitive Groups.
\<close>

theorem epa_40:
  "fle (dbl 35.5) (dbl 40.0) \<and> fle (dbl 40.0) (dbl 55.4) \<and>
   interpolate (dbl 35.5, dbl 55.4, 101, 150) (dbl 40.0) = Inr 112 \<and>
   rhe ((150 - 101) / (55.4 - 35.5) * (40.0 - 35.5) + 101) = 112 \<and>
   epa_aqi_pm25 (Some (dbl 40.0)) = Inr (Some 112) \<and>
   assess_aqi (Some 112) =
     (''Unhealthy for Sensitive Groups'', orange_circle,
      ''Sensitive groups should reduce prolonged or heavy exertion.'', ''usg'')"
proof (intro conjI)
  show "fle (dbl 35.5) (dbl 40.0)" "fle (dbl 40.0) (dbl 55.4)"
    unfolding dbl_consts dbl_more by simp_all
  show "interpolate (dbl 35.5, dbl 55.4, 101, 150) (dbl 40.0) = Inr 112"
    unfolding dbl_consts dbl_more by (simp add: band2(1) interp_40)
  show "rhe ((150 - 101) / (55.4 - 35.5) * (40.0 - 35.5) + 101) = 112"
    by (simp add: rhe_def Let_def)
  have "epa_aqi_pm25 (Some (Fin 40)) = band_loop bps (Fin 40)"
    by (rule epa_unclamped) simp_all
  then show "epa_aqi_pm25 (Some (dbl 40.0)) = Inr (Some 112)"
    unfolding dbl_more by (simp add: band_loop_Fin interp_40)
  show "assess_aqi (Some 112) =
     (''Unhealthy for Sensitive Groups'', orange_circle,
      ''Sensitive groups should reduce prolonged or heavy exertion.'', ''usg'')"
    by (simp add: assess_aqi_def)
qed

text \<open>The result for \<open>40.0\<close> is not the 111 of the claim as it was stated.\<close>

theorem epa_40_counterexample:
  "epa_aqi_pm25 (Some (dbl 40.0)) \<noteq> Inr (Some 111)"
proof -
  have "epa_aqi_pm25 (Some (Fin 40)) = band_loop bps (Fin 40)"
    by (rule epa_unclamped) simp_all
  then show ?thesis unfolding dbl_more by (simp add: band_loop_Fin interp_40)
qed

subsection \<open>\<open>epa_aqi_pm25\<close>: the gaps between the bands\<close>

text \<open>
  Claim C2, amended.  For every concentration strictly inside one of the six gaps
  between two adjacent bands (the float \<open>12.05\<close> is one) no band matches, the loop
  falls through, and \<open>epa_aqi_pm25\<close> returns \<open>None\<close>: the result is absent, not an index
  taken from the lower band.
\<close>

theorem gap_is_absent:
  "flt (dbl 12.0) x \<and> flt x (dbl 12.1) \<or>
   flt (dbl 35.4) x \<and> flt x (dbl 35.5) \<or>
   flt (dbl 55.4) x \<and> flt x (dbl 55.5) \<or>
   flt (dbl 150.4) x \<and> flt x (dbl 150.5) \<or>
   flt (dbl 250.4) x \<and> flt x (dbl 250.5) \<or>
   flt (dbl 350.4) x \<and> flt x (dbl 350.5) \<Longrightarrow>
   epa_aqi_pm25 (Some x) = Inr None"
proof -
  assume gap: "flt (dbl 12.0) x \<and> flt x (dbl 12.1) \<or>
   flt (dbl 35.4) x \<and> flt x (dbl 35.5) \<or>
   flt (dbl 55.4) x \<and> flt x (dbl 55.5) \<or>
   flt (dbl 150.4) x \<and> flt x (dbl 150.5) \<or>
   flt (dbl 250.4) x \<and> flt x (dbl 250.5) \<or>
   flt (dbl 350.4) x \<and> flt x (dbl 350.5)"
  then obtain v where x: "x = Fin v" unfolding dbl_consts by (cases x) auto
  have v: "12 < v \<and> v < c_12_1 \<or> c_35_4 < v \<and> v < 71 / 2 \<or> c_55_4 < v \<and> v < 111 / 2 \<or>
      c_150_4 < v \<and> v < 301 / 2 \<or> c_250_4 < v \<and> v < 501 / 2 \<or> c_350_4 < v \<and> v < 701 / 2"
    using gap unfolding dbl_consts x by simp
  then have "fle (Fin 0) x" "fle x (Fin c_500_4)" unfolding x by auto
  then have "epa_aqi_pm25 (Some x) = band_loop bps x" by (rule epa_unclamped)
  also have "\<dots> = Inr None" using v unfolding x by (subst band_loop_Fin) auto
  finally show ?thesis .
qed

theorem gap_is_absent_witness:
  "flt (dbl 12.0) (dbl 12.05) \<and> flt (dbl 12.05) (dbl 12.1) \<and>
   epa_aqi_pm25 (Some (dbl 12.05)) = Inr None"
  using gap_is_absent [of "dbl 12.05"] unfolding dbl_consts dbl_12_05 by simp

text \<open>
  The claim as it was stated, an index from the lower band for every value in a gap,
  fails at \<open>12.05\<close>, which lies strictly between \<open>12.0\<close> and \<open>12.1\<close>.
\<close>

theorem gap_lower_band_counterexample:
  "flt (dbl 12.0) (dbl 12.05) \<and> flt (dbl 12.05) (dbl 12.1) \<and>
   \<not> (\<exists>a. epa_aqi_pm25 (Some (dbl 12.05)) = Inr (Some a))"
proof -
  have "epa_aqi_pm25 (Some (dbl 12.05)) = band_loop bps (dbl 12.05)"
    unfolding dbl_12_05 by (rule epa_unclamped) simp_all
  also have "\<dots> = Inr None"
    unfolding dbl_12_05 by (subst band_loop_Fin) simp_all
  finally have "epa_aqi_pm25 (Some (dbl 12.05)) = Inr None" .
  moreover have "flt (dbl 12.0) (dbl 12.05) \<and> flt (dbl 12.05) (dbl 12.1)"
    unfolding dbl_consts dbl_12_05 by simp
  ultimately show ?thesis by simp
qed

subsection \<open>\<open>epa_aqi_pm25\<close>: clamping\<close>

text \<open>
  Claim C6.  \<open>epa_aqi_pm25\<close> clamps its input to \<open>[0.0, 500.4]\<close> before the lookup and
  rejects nothing: every input below 0 gives the result of \<open>0.0\<close>, every input above
  \<open>500.4\<close> gives the result of \<open>500.4\<close>; in particular \<open>-5\<close> gives what \<open>0\<close> gives, which is
  0, and \<open>600\<close> gives what \<open>500.4\<close> gives, which is 500.
\<close>

theorem epa_clamps:
  "(flt x (Fin 0) \<longrightarrow> epa_aqi_pm25 (Some x) = epa_aqi_pm25 (Some (dbl 0.0))) \<and>
   (flt (dbl 500.4) y \<longrightarrow> epa_aqi_pm25 (Some y) = epa_aqi_pm25 (Some (dbl 500.4))) \<and>
   epa_aqi_pm25 (Some (dbl (- 5))) = epa_aqi_pm25 (Some (dbl 0.0)) \<and>
   epa_aqi_pm25 (Some (dbl 600)) = epa_aqi_pm25 (Some (dbl 500.4)) \<and>
   epa_aqi_pm25 (Some (dbl 0.0)) = Inr (Some 0) \<and>
   epa_aqi_pm25 (Some (dbl 500.4)) = Inr (Some 500)"
proof -
  have lo: "epa_aqi_pm25 (Some x) = epa_aqi_pm25 (Some (dbl 0.0))" if "flt x (Fin 0)" for x
    using that unfolding epa_aqi_pm25_def dbl_consts
    by (cases x) (auto simp add: pymax_def pymin_def)
  have hi: "epa_aqi_pm25 (Some y) = epa_aqi_pm25 (Some (dbl 500.4))" if "flt (dbl 500.4) y" for y
    using that unfolding epa_aqi_pm25_def dbl_consts
    by (cases y) (auto simp add: pymax_def pymin_def)
  have "epa_aqi_pm25 (Some (dbl (- 5))) = epa_aqi_pm25 (Some (dbl 0.0))"
    using lo [of "Fin (- 5)"] by (simp add: dbl_norm dbl_more)
  moreover have "epa_aqi_pm25 (Some (dbl 600)) = epa_aqi_pm25 (Some (dbl 500.4))"
    using hi [of "Fin 600"] by (simp add: dbl_norm dbl_more)
  moreover have "epa_aqi_pm25 (Some (dbl 0.0)) = Inr (Some 0)"
    unfolding dbl_consts by (rule epa_zero)
  moreover have "epa_aqi_pm25 (Some (dbl 500.4)) = Inr (Some 500)"
    unfolding dbl_consts by (rule epa_top)
  ultimately show ?thesis using lo hi by blast
qed

theorem epa_clamps_witness:
  "flt NInf (Fin 0) \<and> epa_aqi_pm25 (Some NInf) = Inr (Some 0) \<and>
   flt (dbl 500.4) (Fin 1000) \<and> epa_aqi_pm25 (Some (Fin 1000)) = Inr (Some 500)"
  using epa_clamps [of NInf "Fin 1000"] unfolding dbl_consts by simp


subsection \<open>\<open>epa_aqi_pm25\<close>: monotonicity\<close>

text \<open>
  Claim C3, amended.  For every pair of concentrations \<open>x\<close> and \<open>y\<close> with
  \<open>0 \<le> x \<le> y \<le> 500.4\<close> for which \<open>epa_aqi_pm25\<close> returns an index for both (neither lies
  in a gap between two bands), the index of \<open>x\<close> is at most the index of \<open>y\<close>.
\<close>

theorem epa_monotone:
  assumes "fle (Fin 0) x" and "fle x y" and "fle y (dbl 500.4)"
    and "epa_aqi_pm25 (Some x) = Inr (Some a)"
    and "epa_aqi_pm25 (Some y) = Inr (Some b)"
  shows "a \<le> b"
proof -
  have fin: "is_finite x \<and> is_finite y \<and> 0 \<le> val x \<and> val x \<le> val y \<and> val y \<le> c_500_4"
    using assms(1,2,3) unfolding dbl_consts
    by (cases x; cases y) (simp_all add: is_finite_def)
  then have x: "is_finite x \<and> 0 \<le> val x" and y: "is_finite y \<and> val y \<le> c_500_4"
    and xy: "val x \<le> val y" by simp_all
  have "fle (Fin 0) y" "fle y (Fin c_500_4)" "fle x (Fin c_500_4)"
    using x y xy by (cases y; cases x; simp add: is_finite_def)+
  with assms(1) have "epa_aqi_pm25 (Some x) = band_loop bps x"
    "epa_aqi_pm25 (Some y) = band_loop bps y"
    by (simp_all add: epa_unclamped)
  with assms(4,5) x y have "band_loop bps (Fin (val x)) = Inr (Some a)"
    "band_loop bps (Fin (val y)) = Inr (Some b)"
    by (simp_all add: band_loop_val)
  with x xy show ?thesis by (intro band_loop_mono [of "val x" "val y"]) simp_all
qed

theorem epa_monotone_witness:
  "fle (Fin 0) (dbl 12.0) \<and> fle (dbl 12.0) (dbl 12.1) \<and> fle (dbl 12.1) (dbl 500.4) \<and>
   epa_aqi_pm25 (Some (dbl 12.0)) = Inr (Some 50) \<and>
   epa_aqi_pm25 (Some (dbl 12.1)) = Inr (Some 51) \<and> (50::int) \<le> 51"
proof -
  have h: "fle (Fin 0) (dbl 12.0)" "fle (dbl 12.0) (dbl 12.1)" "fle (dbl 12.1) (dbl 500.4)"
    "epa_aqi_pm25 (Some (dbl 12.0)) = Inr (Some 50)"
    "epa_aqi_pm25 (Some (dbl 12.1)) = Inr (Some 51)"
    unfolding dbl_consts by (simp_all add: epa_12 epa_12_1)
  from epa_monotone [OF h] h show ?thesis by blast
qed

text \<open>
  The claim as it was stated, for every pair in the range, fails for \<open>12.0\<close> and
  \<open>12.05\<close>: the second has no index to compare.
\<close>

theorem epa_monotone_counterexample:
  "fle (Fin 0) (dbl 12.0) \<and> fle (dbl 12.0) (dbl 12.05) \<and> fle (dbl 12.05) (dbl 500.4) \<and>
   \<not> (\<exists>a b. epa_aqi_pm25 (Some (dbl 12.0)) = Inr (Some a) \<and>
          epa_aqi_pm25 (Some (dbl 12.05)) = Inr (Some b) \<and> a \<le> b)"
  unfolding dbl_consts dbl_12_05 by (simp add: epa_12_05)


subsection \<open>\<open>assess_temp\<close>: the unit detection\<close>









end
